theory Spec2Isabelle
  imports Main
begin

section \<open>Python strings\<close>

text \<open>
  A Python \<open>str\<close> is modelled as a \<^typ>\<open>string\<close> whose characters are the code
  points 0..255. On that range \<open>str.isspace\<close> (and the regular expression class
  \<open>\s\<close>) holds of TAB..CR, FS..US, SPACE, NEL and NBSP, the class \<open>\d\<close> holds of the
  ten ASCII digits, and \<open>str.lower\<close> shifts A..Z and the Latin-1 capitals by 32.
\<close>

definition py_isspace :: "char \<Rightarrow> bool" where
  "py_isspace c \<longleftrightarrow>
     (let n = (of_char c :: nat)
      in (9 \<le> n \<and> n \<le> 13) \<or> (28 \<le> n \<and> n \<le> 32) \<or> n = 133 \<or> n = 160)"

definition py_isdigit :: "char \<Rightarrow> bool" where
  "py_isdigit c \<longleftrightarrow> (let n = (of_char c :: nat) in 48 \<le> n \<and> n \<le> 57)"

definition ascii_upper :: "char \<Rightarrow> bool" where
  "ascii_upper c \<longleftrightarrow> (let n = (of_char c :: nat) in 65 \<le> n \<and> n \<le> 90)"

definition ascii_lower :: "char \<Rightarrow> bool" where
  "ascii_lower c \<longleftrightarrow> (let n = (of_char c :: nat) in 97 \<le> n \<and> n \<le> 122)"

definition ascii_letter :: "char \<Rightarrow> bool" where
  "ascii_letter c \<longleftrightarrow> ascii_upper c \<or> ascii_lower c"

definition py_lower_char :: "char \<Rightarrow> char" where
  "py_lower_char c =
     (let n = (of_char c :: nat)
      in if (65 \<le> n \<and> n \<le> 90) \<or> (192 \<le> n \<and> n \<le> 222 \<and> n \<noteq> 215)
         then char_of (n + 32) else c)"

definition py_upper_ascii_char :: "char \<Rightarrow> char" where
  "py_upper_ascii_char c =
     (let n = (of_char c :: nat) in if 97 \<le> n \<and> n \<le> 122 then char_of (n - 32) else c)"

definition py_lower :: "string \<Rightarrow> string" where
  "py_lower s = map py_lower_char s"

text \<open>\<open>s.strip()\<close>: leading and trailing whitespace removed.\<close>

definition py_strip :: "string \<Rightarrow> string" where
  "py_strip s = rev (dropWhile py_isspace (rev (dropWhile py_isspace s)))"

text \<open>\<open>s.startswith(p)\<close> and the substring test \<open>p in s\<close>.\<close>

definition startswith :: "string \<Rightarrow> string \<Rightarrow> bool" where
  "startswith s p \<longleftrightarrow> take (length p) s = p"

primrec py_in :: "string \<Rightarrow> string \<Rightarrow> bool" where
  "py_in p [] \<longleftrightarrow> p = []"
| "py_in p (c # cs) \<longleftrightarrow> startswith (c # cs) p \<or> py_in p cs"

text \<open>\<open>s.replace(a, b)\<close> for one-character \<open>a\<close> and \<open>b\<close>.\<close>

definition replace_char :: "char \<Rightarrow> char \<Rightarrow> string \<Rightarrow> string" where
  "replace_char a b s = map (\<lambda>c. if c = a then b else c) s"

text \<open>The slice \<open>s[i:j]\<close> for \<open>0 \<le> i \<le> j\<close>.\<close>

definition py_slice :: "string \<Rightarrow> nat \<Rightarrow> nat \<Rightarrow> string" where
  "py_slice s i j = take (j - i) (drop i s)"

section \<open>Regular expressions\<close>

text \<open>
  The patterns of the scraper use character classes under the quantifiers
  \<open>?\<close>, \<open>*\<close>, \<open>+\<close>, \<open>{m}\<close>, \<open>{m,}\<close>, \<open>{m,n}\<close> (greedy or lazy), sequencing,
  optional non-capturing groups, alternation, capturing groups, \<open>\b\<close> and \<open>$\<close>.
  \<open>rmatch r prev s\<close> lists, in the order in which the backtracking matcher of \<open>re\<close>
  tries them, the ways in which \<open>r\<close> matches at the start of \<open>s\<close>, where \<open>prev\<close> is
  the character before \<open>s\<close> in the subject (if any): the matched text, the texts of
  the capturing groups in the order of their closing brackets, and the rest of \<open>s\<close>.
  The head of the list is the match \<open>re\<close> reports.
\<close>

datatype regex =
    Rep "char \<Rightarrow> bool" nat "nat option" bool
  | Cat regex regex
  | Opt regex
  | Alt regex regex
  | Grp regex
  | Eps
  | Eos
  | Wb

type_synonym rmatch_result = "string \<times> string list \<times> string"

text \<open>The class \<open>\w\<close> on the code points 0..255, and the character just consumed.\<close>

definition py_isword :: "char \<Rightarrow> bool" where
  "py_isword c \<longleftrightarrow>
     (let n = (of_char c :: nat)
      in (48 \<le> n \<and> n \<le> 57) \<or> (65 \<le> n \<and> n \<le> 90) \<or> (97 \<le> n \<and> n \<le> 122) \<or> n = 95
         \<or> n = 170 \<or> n = 178 \<or> n = 179 \<or> n = 181 \<or> n = 185 \<or> n = 186
         \<or> (188 \<le> n \<and> n \<le> 190) \<or> (192 \<le> n \<and> n \<le> 214) \<or> (216 \<le> n \<and> n \<le> 246)
         \<or> 248 \<le> n)"

definition word_at :: "char option \<Rightarrow> bool" where
  "word_at c = (case c of None \<Rightarrow> False | Some x \<Rightarrow> py_isword x)"

definition prev_after :: "char option \<Rightarrow> string \<Rightarrow> char option" where
  "prev_after prev m = (if m = [] then prev else Some (last m))"

definition next_of :: "string \<Rightarrow> char option" where
  "next_of s = (case s of [] \<Rightarrow> None | c # _ \<Rightarrow> Some c)"

fun rmatch :: "regex \<Rightarrow> char option \<Rightarrow> string \<Rightarrow> rmatch_result list" where
  "rmatch (Rep cls mn mx greedy) prev s =
     (let avail = length (takeWhile cls s);
          hi = (case mx of None \<Rightarrow> avail | Some k \<Rightarrow> min k avail);
          ks = [mn..<Suc hi]
      in map (\<lambda>k. (take k s, [], drop k s)) (if greedy then rev ks else ks))"
| "rmatch (Cat a b) prev s =
     concat (map (\<lambda>(m1, g1, r1).
                    map (\<lambda>(m2, g2, r2). (m1 @ m2, g1 @ g2, r2))
                        (rmatch b (prev_after prev m1) r1))
                 (rmatch a prev s))"
| "rmatch (Opt a) prev s = rmatch a prev s @ [([], [], s)]"
| "rmatch (Alt a b) prev s = rmatch a prev s @ rmatch b prev s"
| "rmatch (Grp a) prev s = map (\<lambda>(m, g, r). (m, g @ [m], r)) (rmatch a prev s)"
| "rmatch Eps prev s = [([], [], s)]"
| "rmatch Eos prev s = (if s = [] \<or> s = [CHR 0x0A] then [([], [], s)] else [])"
| "rmatch Wb prev s = (if word_at prev \<noteq> word_at (next_of s) then [([], [], s)] else [])"

text \<open>One character of a class; a literal; a literal under \<open>re.I\<close>.\<close>

definition Chr :: "(char \<Rightarrow> bool) \<Rightarrow> regex" where
  "Chr cls = Rep cls 1 (Some 1) True"

primrec lit :: "string \<Rightarrow> regex" where
  "lit [] = Eps"
| "lit (c # cs) = Cat (Chr (\<lambda>x. x = c)) (lit cs)"

primrec lit_i :: "string \<Rightarrow> regex" where
  "lit_i [] = Eps"
| "lit_i (c # cs) = Cat (Chr (\<lambda>x. py_lower_char x = py_lower_char c)) (lit_i cs)"

text \<open>\<open>re.search\<close>: the leftmost position with a match, and the match there.\<close>

fun search_from :: "regex \<Rightarrow> char option \<Rightarrow> string \<Rightarrow> rmatch_result option" where
  "search_from r prev [] = (case rmatch r prev [] of [] \<Rightarrow> None | x # _ \<Rightarrow> Some x)"
| "search_from r prev (c # cs) =
     (case rmatch r prev (c # cs) of [] \<Rightarrow> search_from r (Some c) cs | x # _ \<Rightarrow> Some x)"

definition re_search :: "regex \<Rightarrow> string \<Rightarrow> rmatch_result option" where
  "re_search r s = search_from r None s"

lemma rmatch_split: "(m, g, r) \<in> set (rmatch rx prev s) \<Longrightarrow> s = m @ r"
proof (induction rx arbitrary: m g r s prev)
  case (Rep cls mn mx greedy)
  then show ?case by (auto simp: Let_def split: if_splits)
next
  case (Cat a b)
  then show ?case by fastforce
next
  case (Opt a)
  then show ?case by auto
next
  case (Alt a b)
  then show ?case by auto
next
  case (Grp a)
  then show ?case by auto
next
  case Eps
  then show ?case by simp
next
  case Eos
  then show ?case by (auto split: if_splits)
next
  case Wb
  then show ?case by (auto split: if_splits)
qed

text \<open>
  \<open>re.findall\<close> for a pattern without capturing groups: the non-overlapping matches
  from left to right. After an empty match the search goes on at the same position
  and must not match the empty string there (\<open>ne\<close>).
\<close>

function findall_from :: "regex \<Rightarrow> bool \<Rightarrow> char option \<Rightarrow> string \<Rightarrow> string list" where
  "findall_from r ne prev s =
     (case (if ne then filter (\<lambda>(m, g, t). m \<noteq> []) (rmatch r prev s) else rmatch r prev s) of
        [] \<Rightarrow> (case s of [] \<Rightarrow> [] | c # cs \<Rightarrow> findall_from r False (Some c) cs)
      | (m, g, t) # _ \<Rightarrow>
          if m = [] then [] # findall_from r True prev s
          else m # findall_from r False (Some (last m)) (drop (length m) s))"
  by pat_completeness auto

lemma filter_Cons_head: "filter P xs = x # ys \<Longrightarrow> P x \<and> x \<in> set xs"
proof -
  assume "filter P xs = x # ys"
  then have "x \<in> set (filter P xs)" by simp
  then show ?thesis by simp
qed

termination findall_from
proof (relation "measure (\<lambda>(r, ne, prev, s). 2 * length s + (if ne then 0 else 1))", goal_cases)
  case 1
  then show ?case by simp
next
  case (2 r ne prev s c cs)
  then show ?case by simp
next
  case (3 r ne prev s x xs m y g t)
  then have "\<not> ne"
    by (auto split: if_splits dest!: filter_Cons_head)
  then show ?case by simp
next
  case (4 r ne prev s x xs m y g t)
  have x: "x = (m, g, t)" using 4 by auto
  have "x \<in> set (rmatch r prev s)"
  proof (cases ne)
    case True
    with 4(1) have "filter (\<lambda>(m, g, t). m \<noteq> []) (rmatch r prev s) = x # xs" by simp
    then show ?thesis by (blast dest: filter_Cons_head)
  next
    case False
    with 4(1) have "rmatch r prev s = x # xs" by simp
    then show ?thesis by simp
  qed
  then have "s = m @ t" unfolding x by (rule rmatch_split)
  with 4 show ?case by (cases m) auto
qed

declare findall_from.simps [simp del]

definition re_findall :: "regex \<Rightarrow> string \<Rightarrow> string list" where
  "re_findall r s = findall_from r False None s"

text \<open>\<open>re.sub(cls, repl, s)\<close> for a pattern that is one character class.\<close>

definition re_sub_class :: "(char \<Rightarrow> bool) \<Rightarrow> string \<Rightarrow> string \<Rightarrow> string" where
  "re_sub_class cls repl s = concat (map (\<lambda>c. if cls c then repl else [c]) s)"

section \<open>Phone numbers\<close>

text \<open>
  \<^verbatim>\<open>PHONE_RE = (?:\+1[\s\-\.]?)?(?:\(?\d{3}\)?[\s\-\.]?)\d{3}[\s\-\.]?\d{4}\<close>
  (the source's class of separators also lists the dashes U+2011..U+2014, which lie
  outside the modelled code points).
\<close>

definition phone_sep :: "char \<Rightarrow> bool" where
  "phone_sep c \<longleftrightarrow> py_isspace c \<or> c = CHR ''-'' \<or> c = CHR ''.''"

definition PHONE_RE :: regex where
  "PHONE_RE =
     Cat (Opt (Cat (lit ''+1'') (Rep phone_sep 0 (Some 1) True)))
    (Cat (Cat (Rep (\<lambda>c. c = CHR ''('') 0 (Some 1) True)
         (Cat (Rep py_isdigit 3 (Some 3) True)
         (Cat (Rep (\<lambda>c. c = CHR '')'') 0 (Some 1) True)
              (Rep phone_sep 0 (Some 1) True))))
    (Cat (Rep py_isdigit 3 (Some 3) True)
    (Cat (Rep phone_sep 0 (Some 1) True)
         (Rep py_isdigit 4 (Some 4) True))))"

text \<open>
  \<^verbatim>\<open>
  def _normalize_phone(raw):
      digits = re.sub(r'\D', '', raw or '')
      if len(digits) == 11 and digits.startswith('1'):
          digits = digits[1:]
      if len(digits) == 10:
          return f'({digits[0:3]}) {digits[3:6]}-{digits[6:10]}'
      return (raw or '').strip()
  \<close>
\<close>

definition normalize_phone :: "string \<Rightarrow> string" where
  "normalize_phone raw =
     (let digits = re_sub_class (\<lambda>c. \<not> py_isdigit c) [] raw;
          digits = (if length digits = 11 \<and> startswith digits ''1'' then drop 1 digits
                    else digits)
      in if length digits = 10
         then ''('' @ py_slice digits 0 3 @ '') '' @ py_slice digits 3 6 @ ''-''
              @ py_slice digits 6 10
         else py_strip raw)"

text \<open>The canonical display form \<open>(NNN) NNN-NNNN\<close>, each \<open>N\<close> a digit.\<close>

definition is_canonical_phone :: "string \<Rightarrow> bool" where
  "is_canonical_phone s \<longleftrightarrow>
     (let a = py_slice s 1 4; b = py_slice s 6 9; c = py_slice s 10 14
      in s = ''('' @ a @ '') '' @ b @ ''-'' @ c
         \<and> length a = 3 \<and> length b = 3 \<and> length c = 4
         \<and> list_all py_isdigit (a @ b @ c))"

text \<open>
  \<^verbatim>\<open>
  def _dedupe_preserve_order(items):
      seen = set(); out = []
      for it in items:
          it = (it or "").strip()
          if it and it not in seen:
              out.append(it); seen.add(it)
      return out
  \<close>
\<close>

fun dedupe_loop :: "string list \<Rightarrow> string set \<times> string list \<Rightarrow> string set \<times> string list" where
  "dedupe_loop [] (seen, out) = (seen, out)"
| "dedupe_loop (it # items) (seen, out) =
     (let it' = py_strip it
      in if it' \<noteq> [] \<and> it' \<notin> seen then dedupe_loop items (insert it' seen, out @ [it'])
         else dedupe_loop items (seen, out))"

definition dedupe_preserve_order :: "string list \<Rightarrow> string list" where
  "dedupe_preserve_order items = snd (dedupe_loop items ({}, []))"

section \<open>Python values and errors\<close>

text \<open>
  An argument that the source tests with \<open>isinstance(x, str)\<close>, \<open>x or ""\<close> or
  \<open>not x\<close>: \<open>None\<close>, a string, or a value of another type with its truth value.
  A raised exception is the left summand of a result.
\<close>

datatype pyval = PyNone | PyStr string | PyOther bool

datatype py_error = TypeError | TimeoutException | WebDriverException

fun truthy :: "pyval \<Rightarrow> bool" where
  "truthy PyNone = False"
| "truthy (PyStr s) = (s \<noteq> [])"
| "truthy (PyOther b) = b"

text \<open>\<open>x or ""\<close>.\<close>

definition or_empty :: "pyval \<Rightarrow> pyval" where
  "or_empty x = (if truthy x then x else PyStr [])"

section \<open>Target builder\<close>

text \<open>
  \<open>re.sub(r"\s+", "-", s)\<close>: every maximal run of whitespace becomes one hyphen.
  \<open>inrun\<close> holds when the character before was whitespace.
\<close>

primrec sub_space_runs :: "string \<Rightarrow> string \<Rightarrow> bool \<Rightarrow> string" where
  "sub_space_runs repl [] inrun = []"
| "sub_space_runs repl (c # cs) inrun =
     (if py_isspace c then (if inrun then [] else repl) @ sub_space_runs repl cs True
      else c # sub_space_runs repl cs False)"

text \<open>
  \<^verbatim>\<open>,\s*([^,]+),\s*([A-Z]{2})(?:,\s*\d{5})?$\<close> under \<open>re.I\<close>.
\<close>

definition CITY_STATE_RE :: regex where
  "CITY_STATE_RE =
     Cat (lit '','')
    (Cat (Rep py_isspace 0 None True)
    (Cat (Grp (Rep (\<lambda>c. c \<noteq> CHR '','') 1 None True))
    (Cat (lit '','')
    (Cat (Rep py_isspace 0 None True)
    (Cat (Grp (Rep ascii_letter 2 (Some 2) True))
    (Cat (Opt (Cat (lit '','') (Cat (Rep py_isspace 0 None True) (Rep py_isdigit 5 (Some 5) True))))
         Eos))))))"

text \<open>
  \<^verbatim>\<open>
  def to_city_state_slug(addr):
      if not isinstance(addr, str):
          return None
      m = re.search(r",\s*([^,]+),\s*([A-Z]{2})(?:,\s*\d{5})?$", addr.strip(), flags=re.I)
      if not m:
          return None
      city = re.sub(r"\s+", "-", m.group(1).strip())
      st = m.group(2).upper()
      return f"{city}-{st}"
  \<close>
  The second group holds two ASCII letters, on which \<open>upper\<close> is
  \<^term>\<open>py_upper_ascii_char\<close>.
\<close>

definition to_city_state_slug :: "pyval \<Rightarrow> string option" where
  "to_city_state_slug addr =
     (case addr of
        PyStr a \<Rightarrow>
          (case re_search CITY_STATE_RE (py_strip a) of
             None \<Rightarrow> None
           | Some (m, groups, rest) \<Rightarrow>
               (let city = sub_space_runs ''-'' (py_strip (groups ! 0)) False;
                    st = map py_upper_ascii_char (groups ! 1)
                in Some (city @ ''-'' @ st)))
      | _ \<Rightarrow> None)"

text \<open>
  \<open>urllib.parse.quote_plus\<close> on a string: a space becomes \<open>+\<close>; the other
  characters are encoded in UTF-8 and every byte outside the letters, the digits and
  \<open>_.-~\<close> is written \<open>%XX\<close>.
\<close>

definition url_safe :: "char \<Rightarrow> bool" where
  "url_safe c \<longleftrightarrow> ascii_letter c \<or> py_isdigit c \<or> c \<in> set ''_.-~''"

definition utf8_encode :: "char \<Rightarrow> nat list" where
  "utf8_encode c =
     (let n = (of_char c :: nat)
      in if n < 128 then [n] else [192 + n div 64, 128 + n mod 64])"

definition hex_digit :: "nat \<Rightarrow> char" where
  "hex_digit k = ''0123456789ABCDEF'' ! (k mod 16)"

definition quote_byte :: "nat \<Rightarrow> string" where
  "quote_byte b =
     (if b < 128 \<and> url_safe (char_of b) then [char_of b]
      else [CHR ''%'', hex_digit (b div 16), hex_digit b])"

definition quote_plus :: "string \<Rightarrow> string" where
  "quote_plus s =
     concat (map (\<lambda>c. if c = CHR '' '' then ''+'' else concat (map quote_byte (utf8_encode c))) s)"

text \<open>
  \<^verbatim>\<open>
  def build_fps_url(first, last, address, zip_code):
      fn = re.sub(r"[^A-Za-z\- ]", "", (first or "")).strip().replace(" ", "-")
      ln = re.sub(r"[^A-Za-z\- ]", "", (last or "")).strip().replace(" ", "-")
      where = None
      if isinstance(zip_code, str) and zip_code.strip():
          where = zip_code.strip()[:5]
      if not where:
          where = to_city_state_slug(address or "")
      return f"https://www.fastpeoplesearch.com/name/{quote_plus(fn)}-{quote_plus(ln)}_{quote_plus(where or '')}"
  \<close>
  \<open>re.sub\<close> raises \<open>TypeError\<close> on an argument that is not a string.
\<close>

definition name_kept :: "char \<Rightarrow> bool" where
  "name_kept c \<longleftrightarrow> ascii_letter c \<or> c = CHR ''-'' \<or> c = CHR '' ''"

definition name_slug :: "pyval \<Rightarrow> py_error + string" where
  "name_slug x =
     (case or_empty x of
        PyStr s \<Rightarrow>
          Inr (replace_char CHR '' '' CHR ''-'' (py_strip (re_sub_class (\<lambda>c. \<not> name_kept c) [] s)))
      | _ \<Rightarrow> Inl TypeError)"

definition zip_where :: "pyval \<Rightarrow> string option" where
  "zip_where zip_code =
     (case zip_code of
        PyStr z \<Rightarrow> if py_strip z \<noteq> [] then Some (take 5 (py_strip z)) else None
      | _ \<Rightarrow> None)"

definition falsy_where :: "string option \<Rightarrow> bool" where
  "falsy_where w \<longleftrightarrow> (case w of None \<Rightarrow> True | Some s \<Rightarrow> s = [])"

definition FPS_PREFIX :: string where
  "FPS_PREFIX = ''https://www.fastpeoplesearch.com/name/''"

definition build_fps_url :: "pyval \<Rightarrow> pyval \<Rightarrow> pyval \<Rightarrow> pyval \<Rightarrow> py_error + string" where
  "build_fps_url first last' address zip_code =
     (case name_slug first of
        Inl e \<Rightarrow> Inl e
      | Inr fn \<Rightarrow>
     (case name_slug last' of
        Inl e \<Rightarrow> Inl e
      | Inr ln \<Rightarrow>
          (let where = zip_where zip_code;
               where = (if falsy_where where then to_city_state_slug (or_empty address) else where)
           in Inr (FPS_PREFIX @ quote_plus fn @ ''-'' @ quote_plus ln @ ''_''
                   @ quote_plus (case where of None \<Rightarrow> [] | Some w \<Rightarrow> w)))))"

text \<open>
  What the claims say of a URL. It is well formed when it reads \<open>https://\<close>, a
  non-empty host of letters, digits, dots and hyphens, and a path in which every
  character is allowed in a path segment (RFC 3986: unreserved characters,
  sub-delimiters, \<open>:\<close>, \<open>@\<close>, \<open>/\<close>) or starts a \<open>%XX\<close> escape. Its location segment is
  what follows the last underscore.
\<close>

definition is_hex :: "char \<Rightarrow> bool" where
  "is_hex c \<longleftrightarrow> py_isdigit c \<or> c \<in> set ''ABCDEFabcdef''"

definition path_char :: "char \<Rightarrow> bool" where
  "path_char c \<longleftrightarrow> ascii_letter c \<or> py_isdigit c \<or> c \<in> set ''-._~!$&()*+,;=:@/'' \<or> c = CHR 0x27"

fun path_ok :: "string \<Rightarrow> bool" where
  "path_ok [] \<longleftrightarrow> True"
| "path_ok (c # cs) \<longleftrightarrow>
     (if c = CHR ''%''
      then (case cs of a # b # rest \<Rightarrow> is_hex a \<and> is_hex b \<and> path_ok rest | _ \<Rightarrow> False)
      else path_char c \<and> path_ok cs)"

definition host_char :: "char \<Rightarrow> bool" where
  "host_char c \<longleftrightarrow> ascii_letter c \<or> py_isdigit c \<or> c = CHR ''.'' \<or> c = CHR ''-''"

definition valid_https_url :: "string \<Rightarrow> bool" where
  "valid_https_url u \<longleftrightarrow>
     startswith u ''https://''
     \<and> (let rest = drop 8 u;
             host = takeWhile (\<lambda>c. c \<noteq> CHR ''/'') rest;
             path = dropWhile (\<lambda>c. c \<noteq> CHR ''/'') rest
         in host \<noteq> [] \<and> list_all host_char host \<and> path_ok path)"

definition location_segment :: "string \<Rightarrow> string" where
  "location_segment u = rev (takeWhile (\<lambda>c. c \<noteq> CHR ''_'') (rev u))"

text \<open>
  The name token as the specification words it: only letters, hyphens and spaces are
  kept, the spaces at both ends go, and every space left becomes a hyphen.
\<close>

definition sanitized_name :: "string \<Rightarrow> string" where
  "sanitized_name s =
     (let kept = filter name_kept s;
          inner = rev (dropWhile (\<lambda>c. c = CHR '' '') (rev (dropWhile (\<lambda>c. c = CHR '' '') kept)))
      in map (\<lambda>c. if c = CHR '' '' then CHR ''-'' else c) inner)"

definition str_or_none :: "pyval \<Rightarrow> bool" where
  "str_or_none x \<longleftrightarrow> (case x of PyOther b \<Rightarrow> False | _ \<Rightarrow> True)"

definition name_text :: "pyval \<Rightarrow> string" where
  "name_text x = (case x of PyStr s \<Rightarrow> s | _ \<Rightarrow> [])"

text \<open>
  No postal code is supplied: the argument is \<open>None\<close>, not a string, or a string that
  is empty after \<open>strip\<close>. An address ends in \<open>, City, ST\<close> (optionally \<open>, ZIP\<close>) when
  the pattern of \<^term>\<open>to_city_state_slug\<close> finds a match in it.
\<close>

definition no_postal_code :: "pyval \<Rightarrow> bool" where
  "no_postal_code zip_code \<longleftrightarrow> (case zip_code of PyStr z \<Rightarrow> py_strip z = [] | _ \<Rightarrow> True)"

definition ends_with_city_state :: "string \<Rightarrow> bool" where
  "ends_with_city_state a \<longleftrightarrow> re_search CITY_STATE_RE (py_strip a) \<noteq> None"

section \<open>Pages\<close>

text \<open>
  \<open>BeautifulSoup(html, "html.parser")\<close> is an external parser: the functions below
  take it as the parameter \<open>parse\<close>, from the markup to the document tree. A tree is
  made of text nodes and of tags with a name, attributes and children; the root is the
  tag that stands for the whole document. The operations on trees are those of
  \<open>bs4\<close> that the scraper calls.
\<close>

datatype node = Text string | Tag string "(string \<times> string) list" "node list"

fun tag_name :: "node \<Rightarrow> string" where
  "tag_name (Text s) = []"
| "tag_name (Tag n a cs) = n"

fun get_attr :: "node \<Rightarrow> string \<Rightarrow> string option" where
  "get_attr (Text s) k = None"
| "get_attr (Tag n a cs) k = map_of a k"

text \<open>The tags of a tree in document order, and those below its root.\<close>

fun tags_of :: "node \<Rightarrow> node list" where
  "tags_of (Text s) = []"
| "tags_of (Tag n a cs) = Tag n a cs # concat (map tags_of cs)"

fun descendants :: "node \<Rightarrow> node list" where
  "descendants (Text s) = []"
| "descendants (Tag n a cs) = concat (map tags_of cs)"

fun strings_of :: "node \<Rightarrow> string list" where
  "strings_of (Text s) = [s]"
| "strings_of (Tag n a cs) = concat (map strings_of cs)"

fun join :: "string \<Rightarrow> string list \<Rightarrow> string" where
  "join sep [] = []"
| "join sep [x] = x"
| "join sep (x # y # ys) = x @ sep @ join sep (y # ys)"

text \<open>\<open>e.get_text(sep, strip=True)\<close> and \<open>e.text\<close>.\<close>

definition get_text_strip :: "string \<Rightarrow> node \<Rightarrow> string" where
  "get_text_strip sep e = join sep (filter (\<lambda>t. t \<noteq> []) (map py_strip (strings_of e)))"

definition text_of :: "node \<Rightarrow> string" where
  "text_of e = concat (strings_of e)"

text \<open>\<open>s.split()\<close>: the maximal runs of characters that are not whitespace.\<close>

primrec split_ws_acc :: "string \<Rightarrow> string \<Rightarrow> string list" where
  "split_ws_acc [] cur = (if cur = [] then [] else [cur])"
| "split_ws_acc (c # cs) cur =
     (if py_isspace c then (if cur = [] then split_ws_acc cs [] else cur # split_ws_acc cs [])
      else split_ws_acc cs (cur @ [c]))"

definition split_ws :: "string \<Rightarrow> string list" where
  "split_ws s = split_ws_acc s []"

text \<open>
  The selectors in use: a tag name with one test of an attribute, as in
  \<open>a[href^='tel:']\<close>, \<open>a[href*='/phone/']\<close>, \<open>a.__cf_email__\<close>, or
  \<open>find_all("div", id=...)\<close>.
\<close>

datatype attr_test =
    AttrPrefix string string
  | AttrContains string string
  | AttrEq string string
  | HasClass string

fun attr_holds :: "attr_test \<Rightarrow> node \<Rightarrow> bool" where
  "attr_holds (AttrPrefix k v) e = (case get_attr e k of None \<Rightarrow> False | Some x \<Rightarrow> startswith x v)"
| "attr_holds (AttrContains k v) e = (case get_attr e k of None \<Rightarrow> False | Some x \<Rightarrow> py_in v x)"
| "attr_holds (AttrEq k v) e = (case get_attr e k of None \<Rightarrow> False | Some x \<Rightarrow> x = v)"
| "attr_holds (HasClass c) e =
     (case get_attr e ''class'' of None \<Rightarrow> False | Some x \<Rightarrow> c \<in> set (split_ws x))"

datatype selector = Sel string attr_test

fun sel_matches :: "selector \<Rightarrow> node \<Rightarrow> bool" where
  "sel_matches (Sel n t) e \<longleftrightarrow> tag_name e = n \<and> attr_holds t e"

text \<open>
  \<open>e.select("s1, s2, ...")\<close>: the tags below \<open>e\<close> that match one of the selectors,
  in document order; \<open>select_one\<close> and \<open>find\<close> give the first of them.
\<close>

definition soup_select :: "selector list \<Rightarrow> node \<Rightarrow> node list" where
  "soup_select sels e = filter (\<lambda>x. list_ex (\<lambda>s. sel_matches s x) sels) (descendants e)"

definition soup_select_one :: "selector list \<Rightarrow> node \<Rightarrow> node option" where
  "soup_select_one sels e = (case soup_select sels e of [] \<Rightarrow> None | x # _ \<Rightarrow> Some x)"

text \<open>\<open>e.find(id=v)\<close>, for any tag name.\<close>

definition find_by_id :: "string \<Rightarrow> node \<Rightarrow> node option" where
  "find_by_id v e = List.find (attr_holds (AttrEq ''id'' v)) (descendants e)"

section \<open>Gate helpers\<close>

text \<open>
  \<^verbatim>\<open>
  def is_cloudflare_challenge(html):
      h = (html or "").lower()
      return any(s in h for s in _CF_SIGNAL_STRINGS)
  \<close>
\<close>

definition CF_SIGNAL_STRINGS :: "string list" where
  "CF_SIGNAL_STRINGS =
     [''checking your browser'', ''please wait while we check your browser'',
      ''verifying you are human'', ''just a moment'',
      ''cloudflare'', ''cf-challenge'', ''turnstile'', ''captcha'']"

definition is_cloudflare_challenge :: "string \<Rightarrow> bool" where
  "is_cloudflare_challenge html =
     (let h = py_lower html in list_ex (\<lambda>s. py_in s h) CF_SIGNAL_STRINGS)"

text \<open>
  \<open>looks_blocked\<close> of \<open>fps_scraper_edge.py\<close>, and that of \<open>fps_scraper_chrome.py\<close>,
  whose list of triggers also holds \<open>just a moment\<close>. Both call
  \<open>is_cloudflare_challenge\<close> on the lowered markup.
\<close>

definition looks_blocked :: "string \<Rightarrow> bool" where
  "looks_blocked html0 =
     (let html = py_lower html0;
          triggers = [''access denied'', ''unusual traffic'', ''are you a human'',
                      ''verify you are human'', ''security check'', ''please enable cookies'']
      in list_ex (\<lambda>t. py_in t html) triggers \<or> is_cloudflare_challenge html)"

definition looks_blocked_chrome :: "string \<Rightarrow> bool" where
  "looks_blocked_chrome html0 =
     (let html = py_lower html0;
          triggers = [''access denied'', ''unusual traffic'', ''are you a human'',
                      ''verify you are human'', ''security check'', ''just a moment'',
                      ''please enable cookies'']
      in list_ex (\<lambda>t. py_in t html) triggers \<or> is_cloudflare_challenge html)"

section \<open>Detail pages\<close>

subsection \<open>Detection (\<open>fps_scraper_edge.py\<close>)\<close>

text \<open>\<^verbatim>\<open>age\s*:?\s*\d{1,3}\<close>\<close>

definition AGE_SIGNAL_RE :: regex where
  "AGE_SIGNAL_RE =
     Cat (lit ''age'')
    (Cat (Rep py_isspace 0 None True)
    (Cat (Rep (\<lambda>c. c = CHR '':'') 0 (Some 1) True)
    (Cat (Rep py_isspace 0 None True)
         (Rep py_isdigit 1 (Some 3) True))))"

definition PHONE_LINKS :: "selector list" where
  "PHONE_LINKS = [Sel ''a'' (AttrPrefix ''href'' ''tel:''), Sel ''a'' (AttrContains ''href'' ''/phone/'')]"

definition ADDRESS_LINKS :: "selector list" where
  "ADDRESS_LINKS = [Sel ''a'' (AttrContains ''href'' ''/address/'')]"

text \<open>
  \<^verbatim>\<open>
  def is_detail_page_html(html):
      if not html: return False
      if is_cloudflare_challenge(html) or looks_blocked(html): return False
      soup = BeautifulSoup(html, "html.parser")
      body_text = soup.get_text(" ", strip=True).lower()
      signals = 0
      if soup.select("a[href^='tel:'], a[href*='/phone/']") or PHONE_RE.search(body_text): signals += 1
      if soup.select("a[href*='/address/']") or 'current address' in body_text or 'address history' in body_text: signals += 1
      if re.search(r'age\s*:?\s*\d{1,3}', body_text): signals += 1
      if any(k in body_text for k in ('possible relatives','relatives','associated people','associates')): signals += 1
      return signals >= 1
  \<close>
\<close>

definition detail_signals :: "node \<Rightarrow> nat" where
  "detail_signals soup =
     (let body_text = py_lower (get_text_strip '' '' soup);
          signals = 0;
          signals = (if soup_select PHONE_LINKS soup \<noteq> [] \<or> re_search PHONE_RE body_text \<noteq> None
                     then signals + 1 else signals);
          signals = (if soup_select ADDRESS_LINKS soup \<noteq> [] \<or> py_in ''current address'' body_text
                        \<or> py_in ''address history'' body_text
                     then signals + 1 else signals);
          signals = (if re_search AGE_SIGNAL_RE body_text \<noteq> None then signals + 1 else signals);
          signals = (if list_ex (\<lambda>k. py_in k body_text)
                          [''possible relatives'', ''relatives'', ''associated people'', ''associates'']
                     then signals + 1 else signals)
      in signals)"

definition is_detail_page_html :: "(string \<Rightarrow> node) \<Rightarrow> string \<Rightarrow> bool" where
  "is_detail_page_html parse html =
     (if html = [] then False
      else if is_cloudflare_challenge html \<or> looks_blocked html then False
      else detail_signals (parse html) \<ge> 1)"

subsection \<open>Detection (\<open>fps_scraper_chrome.py\<close>)\<close>

text \<open>
  \<^verbatim>\<open>
  DETAIL_MIN_SIGNALS = 2

  def is_detail_page_html(html):
      if not html:
          return False
      soup = BeautifulSoup(html, "html.parser")
      signals = 0
      if soup.find(id="age-header"):
          signals += 1
      if soup.select("#relative-links a[title*='Details for'], #associate-links a[title*='Details for']"):
          signals += 1
      if soup.select("a[title*='phone number']"):
          signals += 1
      if soup.select("a[title*='Search people living at']"):
          signals += 1
      if soup.find(id="background-report") or soup.find(id="faqs"):
          signals += 1
      return signals >= DETAIL_MIN_SIGNALS
  \<close>
  \<open>#x a[...]\<close> selects the matching links below a tag whose \<open>id\<close> is \<open>x\<close>.
\<close>

definition DETAIL_MIN_SIGNALS :: nat where
  "DETAIL_MIN_SIGNALS = 2"

definition select_under_id :: "string \<Rightarrow> selector list \<Rightarrow> node \<Rightarrow> node list" where
  "select_under_id v sels e =
     concat (map (soup_select sels) (filter (attr_holds (AttrEq ''id'' v)) (descendants e)))"

definition detail_signals_chrome :: "node \<Rightarrow> nat" where
  "detail_signals_chrome soup =
     (let signals = 0;
          signals = (if find_by_id ''age-header'' soup \<noteq> None then signals + 1 else signals);
          signals = (if select_under_id ''relative-links'' [Sel ''a'' (AttrContains ''title'' ''Details for'')] soup \<noteq> []
                        \<or> select_under_id ''associate-links'' [Sel ''a'' (AttrContains ''title'' ''Details for'')] soup \<noteq> []
                     then signals + 1 else signals);
          signals = (if soup_select [Sel ''a'' (AttrContains ''title'' ''phone number'')] soup \<noteq> []
                     then signals + 1 else signals);
          signals = (if soup_select [Sel ''a'' (AttrContains ''title'' ''Search people living at'')] soup \<noteq> []
                     then signals + 1 else signals);
          signals = (if find_by_id ''background-report'' soup \<noteq> None \<or> find_by_id ''faqs'' soup \<noteq> None
                     then signals + 1 else signals)
      in signals)"

definition is_detail_page_html_chrome :: "(string \<Rightarrow> node) \<Rightarrow> string \<Rightarrow> bool" where
  "is_detail_page_html_chrome parse html =
     (if html = [] then False
      else detail_signals_chrome (parse html) \<ge> DETAIL_MIN_SIGNALS)"

subsection \<open>Extraction helpers\<close>

text \<open>\<^verbatim>\<open>EMAIL_RE = [A-Z0-9._%+-]+@[A-Z0-9.-]+\.[A-Z]{2,}\<close> under \<open>re.I\<close>.\<close>

definition EMAIL_RE :: regex where
  "EMAIL_RE =
     Cat (Rep (\<lambda>c. ascii_letter c \<or> py_isdigit c \<or> c \<in> set ''._%+-'') 1 None True)
    (Cat (lit ''@'')
    (Cat (Rep (\<lambda>c. ascii_letter c \<or> py_isdigit c \<or> c \<in> set ''.-'') 1 None True)
    (Cat (lit ''.'')
         (Rep ascii_letter 2 None True))))"

text \<open>
  \<open>int(s, 16)\<close> on a string of one or two characters: blanks around it are dropped,
  a sign may come first, and what is left must be hexadecimal digits. \<open>None\<close> stands
  for \<open>ValueError\<close>.
\<close>

definition hex_value :: "char \<Rightarrow> int" where
  "hex_value c =
     (let n = (of_char c :: nat)
      in if 48 \<le> n \<and> n \<le> 57 then int n - 48
         else if 65 \<le> n \<and> n \<le> 70 then int n - 55
         else int n - 87)"

definition hex_number :: "string \<Rightarrow> int option" where
  "hex_number ds =
     (if ds \<noteq> [] \<and> list_all is_hex ds
      then Some (foldl (\<lambda>acc c. 16 * acc + hex_value c) 0 ds) else None)"

definition int16 :: "string \<Rightarrow> int option" where
  "int16 s =
     (case py_strip s of
        [] \<Rightarrow> None
      | c # cs \<Rightarrow>
          if c = CHR ''-'' then map_option uminus (hex_number cs)
          else if c = CHR ''+'' then hex_number cs
          else hex_number (c # cs))"

fun chunks2 :: "string \<Rightarrow> string list" where
  "chunks2 [] = []"
| "chunks2 [a] = [[a]]"
| "chunks2 (a # b # rest) = [a, b] # chunks2 rest"

text \<open>
  \<^verbatim>\<open>
  def decode_cf_email(cf_hex):
      try:
          key = int(cf_hex[:2], 16)
          return ''.join(chr(int(cf_hex[i:i+2], 16) ^ key) for i in range(2, len(cf_hex), 2))
      except Exception:
          return None
  \<close>
  \<open>chr\<close> raises on a negative number; the numbers here are below 256.
\<close>

fun decode_chunks :: "int \<Rightarrow> string list \<Rightarrow> string option" where
  "decode_chunks key [] = Some []"
| "decode_chunks key (ch # chs) =
     (case int16 ch of
        None \<Rightarrow> None
      | Some v \<Rightarrow>
          (let x = xor v key
           in if x < 0 then None
              else (case decode_chunks key chs of
                      None \<Rightarrow> None
                    | Some rest \<Rightarrow> Some (char_of x # rest))))"

definition decode_cf_email :: "string \<Rightarrow> string option" where
  "decode_cf_email cf_hex =
     (case int16 (take 2 cf_hex) of
        None \<Rightarrow> None
      | Some key \<Rightarrow> decode_chunks key (chunks2 (drop 2 cf_hex)))"

subsection \<open>Extraction (\<open>fps_scraper_edge.py\<close>)\<close>

record detail_data =
  home_address :: "string option"
  phones :: "string list"
  age :: "string option"
  relatives :: "string list"
  emails :: "string list"
  marital_status :: "string option"
  associates :: "string list"
  previous_addresses :: "string list"
  current_address_details :: "string option"
  background_report :: "string option"
  faqs :: "string option"
  page_url :: string

definition empty_data :: "string \<Rightarrow> detail_data" where
  "empty_data current_url =
     \<lparr> home_address = None, phones = [], age = None, relatives = [], emails = [],
       marital_status = None, associates = [], previous_addresses = [],
       current_address_details = None, background_report = None, faqs = None,
       page_url = current_url \<rparr>"

text \<open>\<open>x or None\<close> for a string \<open>x\<close>.\<close>

definition nonempty :: "string \<Rightarrow> string option" where
  "nonempty s = (if s = [] then None else Some s)"

text \<open>
  \<^verbatim>\<open>current address\s*:?\s*(.+?)(?:\s{2,}|$)\<close> under \<open>re.I\<close>;
  \<^verbatim>\<open>\bage\s*:?\s*(\d{1,3})\b\<close> under \<open>re.I\<close>;
  \<^verbatim>\<open>(label.*?)\s{5,}\<close> and \<^verbatim>\<open>(faq[s]?:?.+)$\<close> under \<open>re.I | re.S\<close>.
\<close>

definition CURRENT_ADDRESS_RE :: regex where
  "CURRENT_ADDRESS_RE =
     Cat (lit_i ''current address'')
    (Cat (Rep py_isspace 0 None True)
    (Cat (Rep (\<lambda>c. c = CHR '':'') 0 (Some 1) True)
    (Cat (Rep py_isspace 0 None True)
    (Cat (Grp (Rep (\<lambda>c. c \<noteq> CHR 0x0A) 1 None False))
         (Alt (Rep py_isspace 2 None True) Eos)))))"

definition AGE_RE :: regex where
  "AGE_RE =
     Cat Wb
    (Cat (lit_i ''age'')
    (Cat (Rep py_isspace 0 None True)
    (Cat (Rep (\<lambda>c. c = CHR '':'') 0 (Some 1) True)
    (Cat (Rep py_isspace 0 None True)
    (Cat (Grp (Rep py_isdigit 1 (Some 3) True))
         Wb)))))"

definition BACKGROUND_RE :: "string \<Rightarrow> regex" where
  "BACKGROUND_RE label =
     Cat (Grp (Cat (lit_i label) (Rep (\<lambda>c. True) 0 None False)))
         (Rep py_isspace 5 None True)"

definition FAQ_RE :: regex where
  "FAQ_RE =
     Cat (Grp (Cat (lit_i ''faq'')
              (Cat (Rep (\<lambda>c. py_lower_char c = CHR ''s'') 0 (Some 1) True)
              (Cat (Rep (\<lambda>c. c = CHR '':'') 0 (Some 1) True)
                   (Rep (\<lambda>c. True) 1 None True)))))
         Eos"

text \<open>The first capturing group of a search, stripped.\<close>

definition group1_stripped :: "regex \<Rightarrow> string \<Rightarrow> string option" where
  "group1_stripped r s =
     (case re_search r s of None \<Rightarrow> None | Some (m, groups, rest) \<Rightarrow> Some (py_strip (groups ! 0)))"

text \<open>
  \<^verbatim>\<open>
  phones = []
  for a in soup.select("a[href^='tel:'], a[href*='/phone/']"):
      t = (a.get_text(" ", strip=True) or a.get("href") or "")
      phones.extend(PHONE_RE.findall(t))
  if not phones:
      phones.extend(PHONE_RE.findall(body_text))
  phones = [_normalize_phone(p) for p in phones]
  data["phones"] = _dedupe_preserve_order(phones)[:5]
  \<close>
\<close>

definition link_text_or_href :: "node \<Rightarrow> string" where
  "link_text_or_href a =
     (let t = get_text_strip '' '' a
      in if t \<noteq> [] then t else (case get_attr a ''href'' of None \<Rightarrow> [] | Some h \<Rightarrow> h))"

definition extract_phones :: "node \<Rightarrow> string \<Rightarrow> string list" where
  "extract_phones soup body_text =
     (let phones = concat (map (\<lambda>a. re_findall PHONE_RE (link_text_or_href a))
                               (soup_select PHONE_LINKS soup));
          phones = (if phones = [] then phones @ re_findall PHONE_RE body_text else phones);
          phones = map normalize_phone phones
      in take 5 (dedupe_preserve_order phones))"

text \<open>
  \<^verbatim>\<open>
  emails = []
  for cf in soup.select("a.__cf_email__"):
      cf_hex = cf.get("data-cfemail")
      dec = decode_cf_email(cf_hex) if cf_hex else None
      if dec: emails.append(dec)
  for a in soup.select("a[href^='mailto:']"):
      href = a.get("href", "")
      if href.lower().startswith("mailto:"): emails.append(href.split(":", 1)[1])
  if not emails:
      emails.extend(EMAIL_RE.findall(body_text))
  data["emails"] = _dedupe_preserve_order(emails)
  \<close>
\<close>

definition cf_email_of :: "node \<Rightarrow> string list" where
  "cf_email_of cf =
     (case get_attr cf ''data-cfemail'' of
        None \<Rightarrow> []
      | Some cf_hex \<Rightarrow>
          if cf_hex = [] then []
          else (case decode_cf_email cf_hex of
                  None \<Rightarrow> []
                | Some dec \<Rightarrow> if dec = [] then [] else [dec]))"

definition mailto_of :: "node \<Rightarrow> string list" where
  "mailto_of a =
     (let href = (case get_attr a ''href'' of None \<Rightarrow> [] | Some h \<Rightarrow> h)
      in if startswith (py_lower href) ''mailto:''
         then [drop 1 (dropWhile (\<lambda>c. c \<noteq> CHR '':'') href)] else [])"

definition extract_emails :: "node \<Rightarrow> string \<Rightarrow> string list" where
  "extract_emails soup body_text =
     (let emails = concat (map cf_email_of (soup_select [Sel ''a'' (HasClass ''__cf_email__'')] soup))
                   @ concat (map mailto_of (soup_select [Sel ''a'' (AttrPrefix ''href'' ''mailto:'')] soup));
          emails = (if emails = [] then emails @ re_findall EMAIL_RE body_text else emails)
      in dedupe_preserve_order emails)"

text \<open>
  \<^verbatim>\<open>
  def _extract_names_by_heading(keywords):
      out = []
      for h in soup.find_all(re.compile(r'^h[1-6]$')):
          title = h.get_text(" ", strip=True).lower()
          if any(k in title for k in keywords):
              container = h.find_next(lambda t: t and t.name in ("div","section","ul","ol"))
              if container:
                  for a in container.select("a[href*='/name/'], a[href*='/person/'], a[href*='/people/']"):
                      nm = a.get_text(" ", strip=True)
                      if nm and "detail" not in nm.lower():
                          out.append(nm)
      return _dedupe_preserve_order(out)
  \<close>
  \<open>find_next\<close> looks at the tags that follow the heading in document order, those
  inside the heading first: the walk below goes down the list of all tags.
\<close>

definition is_heading :: "node \<Rightarrow> bool" where
  "is_heading e \<longleftrightarrow> tag_name e \<in> set [''h1'', ''h2'', ''h3'', ''h4'', ''h5'', ''h6'']"

definition is_container :: "node \<Rightarrow> bool" where
  "is_container e \<longleftrightarrow> tag_name e \<in> set [''div'', ''section'', ''ul'', ''ol'']"

definition PERSON_LINKS :: "selector list" where
  "PERSON_LINKS = [Sel ''a'' (AttrContains ''href'' ''/name/''),
                   Sel ''a'' (AttrContains ''href'' ''/person/''),
                   Sel ''a'' (AttrContains ''href'' ''/people/'')]"

definition names_in :: "node \<Rightarrow> string list" where
  "names_in container =
     filter (\<lambda>nm. nm \<noteq> [] \<and> \<not> py_in ''detail'' (py_lower nm))
            (map (get_text_strip '' '') (soup_select PERSON_LINKS container))"

fun names_walk :: "string list \<Rightarrow> node list \<Rightarrow> string list" where
  "names_walk keywords [] = []"
| "names_walk keywords (h # following) =
     (if is_heading h \<and> list_ex (\<lambda>k. py_in k (py_lower (get_text_strip '' '' h))) keywords
      then (case List.find is_container following of
              None \<Rightarrow> []
            | Some container \<Rightarrow> names_in container)
      else [])
     @ names_walk keywords following"

definition extract_names_by_heading :: "node \<Rightarrow> string list \<Rightarrow> string list" where
  "extract_names_by_heading soup keywords =
     dedupe_preserve_order (names_walk keywords (descendants soup))"

text \<open>
  \<open>_parse_detail_page_html_to_data\<close>. The library calls of each \<open>try\<close> block are
  total here, so no block is left by its \<open>except\<close> branch.
  \<^verbatim>\<open>
      addr_el = soup.select_one("a[href*='/address/']")
      if addr_el:
          data["home_address"] = addr_el.get_text(" ", strip=True) or None
      if not data["home_address"]:
          m = re.search(r'current address\s*:?\s*(.+?)(?:\s{2,}|$)', body_text, flags=re.I)
          if m: data["home_address"] = m.group(1).strip()
      ...
      addr_links = [a.get_text(" ", strip=True) for a in soup.select("a[href*='/address/']")]
      addr_links = _dedupe_preserve_order(addr_links)
      if addr_links:
          data["previous_addresses"] = addr_links[1:]
      ...
      for label in ("background report","background check"):
          m = re.search(rf'({label}.*?)\s{{5,}}', body_text, flags=re.I | re.S)
          if m:
              data["background_report"] = m.group(1).strip(); break
      faq_match = re.search(r'(faq[s]?:?.+)$', body_text, flags=re.I | re.S)
      if faq_match: data["faqs"] = faq_match.group(1).strip()
  \<close>
\<close>

definition extract_home_address :: "node \<Rightarrow> string \<Rightarrow> string option" where
  "extract_home_address soup body_text =
     (let home = (case soup_select_one ADDRESS_LINKS soup of
                    None \<Rightarrow> None
                  | Some addr_el \<Rightarrow> nonempty (get_text_strip '' '' addr_el))
      in if home = None \<or> home = Some []
         then (case group1_stripped CURRENT_ADDRESS_RE body_text of None \<Rightarrow> home | Some g \<Rightarrow> Some g)
         else home)"

definition extract_background :: "string \<Rightarrow> string option" where
  "extract_background body_text =
     (case group1_stripped (BACKGROUND_RE ''background report'') body_text of
        Some g \<Rightarrow> Some g
      | None \<Rightarrow> group1_stripped (BACKGROUND_RE ''background check'') body_text)"

definition parse_detail_page_html_to_data ::
    "(string \<Rightarrow> node) \<Rightarrow> string \<Rightarrow> string \<Rightarrow> detail_data" where
  "parse_detail_page_html_to_data parse html current_url =
     (if html = [] then empty_data current_url
      else
        (let soup = parse html;
             body_text = get_text_strip '' '' soup
         in (empty_data current_url)
              \<lparr> home_address := extract_home_address soup body_text,
                phones := extract_phones soup body_text,
                age := (case re_search AGE_RE body_text of
                          None \<Rightarrow> None | Some (m, groups, rest) \<Rightarrow> Some (groups ! 0)),
                emails := extract_emails soup body_text,
                relatives := extract_names_by_heading soup [''possible relatives'', ''relatives''],
                associates := extract_names_by_heading soup [''associated people'', ''associates''],
                previous_addresses :=
                  drop 1 (dedupe_preserve_order
                            (map (get_text_strip '' '') (soup_select ADDRESS_LINKS soup))),
                background_report := extract_background body_text,
                faqs := group1_stripped FAQ_RE body_text \<rparr>))"

subsection \<open>Extraction (\<open>fps_scraper_chrome.py\<close>)\<close>

text \<open>
  \<^verbatim>\<open>
      address_element = soup.find("a", title=lambda x: x and "Search people living at" in x)
      data["home_address"] = address_element.text.strip() if address_element else None
      phone_elements = soup.find_all("a", title=lambda x: x and "Search people associated with the phone number" in x)
      data["phones"] = [phone.text.strip() for phone in phone_elements[:5]]
      age_element = soup.find("h2", id="age-header")
      if age_element:
          m = re.search(r"(\d{1,3})", age_element.get_text(" ", strip=True))
          data["age"] = m.group(1) if m else None
      relative_box = soup.find("div", id="relative-links")
      if relative_box:
          rel_links = relative_box.find_all("a", title=lambda x: x and "Details for" in x)
          data["relatives"] = [rl.text.strip() for rl in rel_links]
      email_elements = soup.find_all("a", class_="__cf_email__")
      data["emails"] = [e.get_text(strip=True) for e in email_elements if e.get_text(strip=True)]
      marital_section = soup.find("div", id="marital_status_section")
      if marital_section:
          mp = marital_section.find("p")
          data["marital_status"] = mp.get_text(" ", strip=True) if mp else None
      assoc_box = soup.find("div", id="associate-links")
      if assoc_box:
          links = assoc_box.find_all("a", title=lambda x: x and "Details for" in x)
          data["associates"] = [a.text.strip() for a in links]
      prev_div = soup.find("div", id="previous-addresses")
      if prev_div:
          prev_links = prev_div.find_all("a", title=lambda x: x and "Search people who live at" in x)
          data["previous_addresses"] = [a.text.strip() for a in prev_links]
      cur_addr = soup.find("div", id="current-address-details")
      data["current_address_details"] = cur_addr.get_text(" ", strip=True) if cur_addr else None
      bg = soup.find("div", id="background-report")
      data["background_report"] = bg.get_text(" ", strip=True) if bg else None
      faqs = soup.find("div", id="faqs")
      data["faqs"] = faqs.get_text("\n", strip=True) if faqs else None
  \<close>
\<close>

definition titled_links :: "string \<Rightarrow> node \<Rightarrow> node list" where
  "titled_links v e = soup_select [Sel ''a'' (AttrContains ''title'' v)] e"

definition links_in_box :: "string \<Rightarrow> string \<Rightarrow> node \<Rightarrow> string list" where
  "links_in_box box_id title soup =
     (case soup_select_one [Sel ''div'' (AttrEq ''id'' box_id)] soup of
        None \<Rightarrow> []
      | Some box \<Rightarrow> map (\<lambda>a. py_strip (text_of a)) (titled_links title box))"

definition div_text :: "string \<Rightarrow> string \<Rightarrow> node \<Rightarrow> string option" where
  "div_text sep div_id soup =
     map_option (get_text_strip sep) (soup_select_one [Sel ''div'' (AttrEq ''id'' div_id)] soup)"

definition parse_detail_page_html_to_data_chrome ::
    "(string \<Rightarrow> node) \<Rightarrow> string \<Rightarrow> string \<Rightarrow> detail_data" where
  "parse_detail_page_html_to_data_chrome parse html current_url =
     (if html = [] then empty_data current_url
      else
        (let soup = parse html
         in (empty_data current_url)
              \<lparr> home_address :=
                  map_option (\<lambda>a. py_strip (text_of a))
                    (soup_select_one [Sel ''a'' (AttrContains ''title'' ''Search people living at'')] soup),
                phones :=
                  map (\<lambda>a. py_strip (text_of a))
                      (take 5 (titled_links ''Search people associated with the phone number'' soup)),
                age :=
                  (case soup_select_one [Sel ''h2'' (AttrEq ''id'' ''age-header'')] soup of
                     None \<Rightarrow> None
                   | Some age_element \<Rightarrow>
                       (case re_search (Grp (Rep py_isdigit 1 (Some 3) True))
                                       (get_text_strip '' '' age_element) of
                          None \<Rightarrow> None | Some (m, groups, rest) \<Rightarrow> Some (groups ! 0))),
                relatives := links_in_box ''relative-links'' ''Details for'' soup,
                emails :=
                  filter (\<lambda>t. t \<noteq> [])
                         (map (get_text_strip [])
                              (soup_select [Sel ''a'' (HasClass ''__cf_email__'')] soup)),
                marital_status :=
                  (case soup_select_one [Sel ''div'' (AttrEq ''id'' ''marital_status_section'')] soup of
                     None \<Rightarrow> None
                   | Some marital_section \<Rightarrow>
                       map_option (get_text_strip '' '')
                         (List.find (\<lambda>e. tag_name e = ''p'') (descendants marital_section))),
                associates := links_in_box ''associate-links'' ''Details for'' soup,
                previous_addresses :=
                  links_in_box ''previous-addresses'' ''Search people who live at'' soup,
                current_address_details := div_text '' '' ''current-address-details'' soup,
                background_report := div_text '' '' ''background-report'' soup,
                faqs := div_text [CHR 0x0A] ''faqs'' soup \<rparr>))"

text \<open>
  \<open>scrape_current_page\<close> of \<open>fps_scraper_chrome.py\<close>: \<open>html\<close> is the page source read
  first, \<open>html2\<close> the one read after the cookie banner was dismissed.
  \<^verbatim>\<open>
      html = driver.page_source
      if is_cloudflare_challenge(html):
          return None, "Cloudflare challenge still visible"
      if looks_blocked(html):
          return None, "Blocked / access denied page"
      if not is_detail_page_html(html):
          cur = driver.current_url or ""
          return None, f"Not on a recognizable detail page (URL: {cur})"
      _click_cookie_banner_if_any(driver)
      html = driver.page_source
      data = _parse_detail_page_html_to_data(html, driver.current_url or "")
      return data, None
  \<close>
\<close>

definition scrape_current_page_chrome ::
    "(string \<Rightarrow> node) \<Rightarrow> string \<Rightarrow> string \<Rightarrow> string \<Rightarrow> detail_data option \<times> string option" where
  "scrape_current_page_chrome parse html html2 current_url =
     (if is_cloudflare_challenge html then (None, Some ''Cloudflare challenge still visible'')
      else if looks_blocked_chrome html then (None, Some ''Blocked / access denied page'')
      else if \<not> is_detail_page_html_chrome parse html
      then (None, Some (''Not on a recognizable detail page (URL: '' @ current_url @ '')''))
      else (Some (parse_detail_page_html_to_data_chrome parse html2 current_url), None))"

text \<open>
  \<open>scrape_current_page\<close> of \<open>fps_scraper_edge.py\<close>: \<open>polled\<close> are the page sources
  that \<open>WebDriverWait(driver, 30).until(...)\<close> reads before its time is up, \<open>html\<close>
  is the page source read after the sections were expanded.
  \<^verbatim>\<open>
      try:
          WebDriverWait(driver, 30).until(lambda d: is_detail_page_html(d.page_source))
      except TimeoutException:
          cur = driver.current_url or ""
          return None, f"Detail content not detected after waiting (URL: {cur})"
      ...
      html = driver.page_source
      if is_cloudflare_challenge(html):
          return None, "Cloudflare challenge still visible"
      if looks_blocked(html):
          return None, "Blocked / access denied page"
      data = _parse_detail_page_html_to_data(html, driver.current_url or "")
      return data, None
  \<close>
\<close>

definition scrape_current_page ::
    "(string \<Rightarrow> node) \<Rightarrow> string list \<Rightarrow> string \<Rightarrow> string \<Rightarrow> detail_data option \<times> string option" where
  "scrape_current_page parse polled html current_url =
     (if \<not> list_ex (is_detail_page_html parse) polled
      then (None, Some (''Detail content not detected after waiting (URL: '' @ current_url @ '')''))
      else if is_cloudflare_challenge html then (None, Some ''Cloudflare challenge still visible'')
      else if looks_blocked html then (None, Some ''Blocked / access denied page'')
      else (Some (parse_detail_page_html_to_data parse html current_url), None))"

text \<open>
  The display form of ten digits, and two pages used as concrete inputs below, each
  with the tree \<open>html.parser\<close> builds for its markup: a challenge page that carries
  an age header and a phone link, and a detail page that lists one phone number twice.
\<close>

definition canonical_form :: "string \<Rightarrow> string" where
  "canonical_form d = ''('' @ take 3 d @ '') '' @ take 3 (drop 3 d) @ ''-'' @ take 4 (drop 6 d)"

definition challenge_html :: string where
  "challenge_html =
     ''<h2 id='age-header'>Age 54</h2><a title='phone number'>212</a><p>Cloudflare</p>''"

definition challenge_soup :: node where
  "challenge_soup =
     Tag ''[document]'' []
       [Tag ''h2'' [(''id'', ''age-header'')] [Text ''Age 54''],
        Tag ''a'' [(''title'', ''phone number'')] [Text ''212''],
        Tag ''p'' [] [Text ''Cloudflare'']]"

definition repeated_phone_html :: string where
  "repeated_phone_html =
     ''<a href='/phone/2125550199' title='Search people associated with the phone number (212) 555-0199'>(212) 555-0199</a>''
     @ ''<a href='/phone/2125550199' title='Search people associated with the phone number (212) 555-0199'>(212) 555-0199</a>''"

definition repeated_phone_soup :: node where
  "repeated_phone_soup =
     Tag ''[document]'' []
       [Tag ''a'' [(''href'', ''/phone/2125550199''),
                   (''title'', ''Search people associated with the phone number (212) 555-0199'')]
            [Text ''(212) 555-0199''],
        Tag ''a'' [(''href'', ''/phone/2125550199''),
                   (''title'', ''Search people associated with the phone number (212) 555-0199'')]
            [Text ''(212) 555-0199'']]"

section \<open>What a pattern can match\<close>

text \<open>
  The texts a pattern can match, whatever the context: every text in a result of
  \<^term>\<open>rmatch\<close> is accepted.
\<close>

fun accepts :: "regex \<Rightarrow> string \<Rightarrow> bool" where
  "accepts (Rep cls mn mx greedy) m \<longleftrightarrow>
     list_all cls m \<and> mn \<le> length m \<and> (case mx of None \<Rightarrow> True | Some k \<Rightarrow> length m \<le> k)"
| "accepts (Cat a b) m \<longleftrightarrow> (\<exists>m1 m2. m = m1 @ m2 \<and> accepts a m1 \<and> accepts b m2)"
| "accepts (Opt a) m \<longleftrightarrow> m = [] \<or> accepts a m"
| "accepts (Alt a b) m \<longleftrightarrow> accepts a m \<or> accepts b m"
| "accepts (Grp a) m \<longleftrightarrow> accepts a m"
| "accepts Eps m \<longleftrightarrow> m = []"
| "accepts Eos m \<longleftrightarrow> m = []"
| "accepts Wb m \<longleftrightarrow> m = []"

section \<open>Candidate selection\<close>

text \<open>
  A Selenium element as the scraper reads it: its attributes \<open>href\<close> and
  \<open>data-href\<close>, its text, and the Python identity \<open>id(e)\<close> of the object that
  stands for it.
\<close>

record element =
  el_href :: "string option"
  el_data_href :: "string option"
  el_text :: string
  el_pyid :: nat

text \<open>\<open>a or b or ""\<close> for two attribute values.\<close>

definition first_truthy :: "string option \<Rightarrow> string option \<Rightarrow> string" where
  "first_truthy a b =
     (case a of
        Some x \<Rightarrow> (if x \<noteq> [] then x else (case b of Some y \<Rightarrow> y | None \<Rightarrow> []))
      | None \<Rightarrow> (case b of Some y \<Rightarrow> y | None \<Rightarrow> []))"

text \<open>\<open>str(n)\<close> for a natural number.\<close>

function str_nat :: "nat \<Rightarrow> string" where
  "str_nat n =
     (if n < 10 then [char_of (48 + n)] else str_nat (n div 10) @ [char_of (48 + n mod 10)])"
  by pat_completeness auto
termination
  by (relation "measure id") auto

declare str_nat.simps [simp del]

text \<open>
  \<^verbatim>\<open>
  def _candidate_detail_links(driver):
      xpaths = [...]
      elems = []
      for xp in xpaths:
          try:
              found = driver.find_elements(By.XPATH, xp)
              elems.extend(found)
          except Exception:
              pass
      seen = set(); uniq = []
      for e in elems:
          href = (e.get_attribute("href") or e.get_attribute("data-href") or "").strip()
          key = href or (e.text.strip() + "_" + str(id(e)))
          if key not in seen:
              uniq.append(e); seen.add(key)
      return uniq
  \<close>
  \<open>found\<close> lists, for each XPath query in turn, what \<open>find_elements\<close> returns (the
  empty list when it raises).
\<close>

definition candidate_key :: "element \<Rightarrow> string" where
  "candidate_key e =
     (let href = py_strip (first_truthy (el_href e) (el_data_href e))
      in if href \<noteq> [] then href else py_strip (el_text e) @ ''_'' @ str_nat (el_pyid e))"

fun uniq_loop :: "element list \<Rightarrow> string set \<times> element list \<Rightarrow> string set \<times> element list" where
  "uniq_loop [] (seen, uniq) = (seen, uniq)"
| "uniq_loop (e # elems) (seen, uniq) =
     (if candidate_key e \<notin> seen
      then uniq_loop elems (insert (candidate_key e) seen, uniq @ [e])
      else uniq_loop elems (seen, uniq))"

definition candidate_detail_links :: "element list list \<Rightarrow> element list" where
  "candidate_detail_links found = snd (uniq_loop (concat found) ({}, []))"

text \<open>
  \<^verbatim>\<open>
  def _normalize_name(s):
      s = (s or "").lower()
      s = re.sub(r"[^a-z\s]", " ", s)
      s = re.sub(r"\s+", " ", s).strip()
      return s

  def _score_anchor_for_name(a, first, last):
      txt = _normalize_name(a.text)
      href = _normalize_name(a.get_attribute("href") or a.get_attribute("data-href") or "")
      score = 0
      if first in txt and last in txt: score += 2
      elif (first in txt) or (last in txt): score += 1
      if first in href and last in href: score += 1
      return score
  \<close>
\<close>

definition normalize_name :: "string \<Rightarrow> string" where
  "normalize_name s0 =
     (let s = py_lower s0;
          s = re_sub_class (\<lambda>c. \<not> (ascii_lower c \<or> py_isspace c)) '' '' s
      in py_strip (sub_space_runs '' '' s False))"

definition score_anchor_for_name :: "element \<Rightarrow> string \<Rightarrow> string \<Rightarrow> nat" where
  "score_anchor_for_name a first last' =
     (let txt = normalize_name (el_text a);
          href = normalize_name (first_truthy (el_href a) (el_data_href a));
          score = 0;
          score = (if py_in first txt \<and> py_in last' txt then score + 2
                   else if py_in first txt \<or> py_in last' txt then score + 1
                   else score);
          score = (if py_in first href \<and> py_in last' href then score + 1 else score)
      in score)"

text \<open>
  \<open>sorted(xs, key=f, reverse=True)\<close>: the list is reversed, sorted by a stable sort
  and reversed again, so that elements with equal keys keep their order.
\<close>

definition py_sorted_reverse :: "('a \<Rightarrow> nat) \<Rightarrow> 'a list \<Rightarrow> 'a list" where
  "py_sorted_reverse f xs = rev (sort_key f (rev xs))"

text \<open>
  \<^verbatim>\<open>
  def _open_best_result(driver, first, last, idx_stub):
      ...
      cands = _candidate_detail_links(driver)
      if not cands:
          return None
      nf, nl = _normalize_name(first), _normalize_name(last)
      scored = sorted(
          [(a, _score_anchor_for_name(a, nf, nl)) for a in cands],
          key=lambda x: x[1],
          reverse=True
      )
      best = scored[0][0]
      href = (best.get_attribute("href") or best.get_attribute("data-href") or "").strip()
      if href:
          if href.startswith("/"):
              href = "https://www.fastpeoplesearch.com" + href
          driver.get(href)
          return href
      if _safe_click(driver, best):
          return driver.current_url
      return None
  \<close>
  \<open>best_candidate\<close> is the element \<open>best\<close>; \<open>clicked\<close> tells whether the click
  went through and \<open>url_after\<close> is \<open>driver.current_url\<close> after it.
\<close>

definition best_candidate :: "element list list \<Rightarrow> string \<Rightarrow> string \<Rightarrow> element option" where
  "best_candidate found first last' =
     (let cands = candidate_detail_links found
      in if cands = [] then None
         else
           (let nf = normalize_name first; nl = normalize_name last';
                scored = py_sorted_reverse snd (map (\<lambda>a. (a, score_anchor_for_name a nf nl)) cands)
            in (case scored of [] \<Rightarrow> None | x # _ \<Rightarrow> Some (fst x))))"

definition open_best_result ::
    "element list list \<Rightarrow> string \<Rightarrow> string \<Rightarrow> bool \<Rightarrow> string \<Rightarrow> string option" where
  "open_best_result found first last' clicked url_after =
     (case best_candidate found first last' of
        None \<Rightarrow> None
      | Some best \<Rightarrow>
          (let href = py_strip (first_truthy (el_href best) (el_data_href best))
           in if href \<noteq> []
              then Some (if startswith href ''/'' then ''https://www.fastpeoplesearch.com'' @ href
                         else href)
              else if clicked then Some url_after else None))"

text \<open>
  \<open>_get_best_result_href\<close> of \<open>fps_scraper_chrome.py\<close> scores and sorts in the same
  way over two XPath queries and reads \<open>href\<close> only; it returns \<open>None\<close> when the best
  element has no \<open>href\<close>.
\<close>

definition candidate_key_chrome :: "element \<Rightarrow> string + nat" where
  "candidate_key_chrome e =
     (let href = py_strip (case el_href e of None \<Rightarrow> [] | Some h \<Rightarrow> h)
      in if href \<noteq> [] then Inl href else Inr (el_pyid e))"

fun uniq_loop_chrome ::
    "element list \<Rightarrow> (string + nat) set \<times> element list \<Rightarrow> (string + nat) set \<times> element list" where
  "uniq_loop_chrome [] (seen, uniq) = (seen, uniq)"
| "uniq_loop_chrome (e # elems) (seen, uniq) =
     (if candidate_key_chrome e \<notin> seen
      then uniq_loop_chrome elems (insert (candidate_key_chrome e) seen, uniq @ [e])
      else uniq_loop_chrome elems (seen, uniq))"

definition candidate_detail_links_chrome :: "element list list \<Rightarrow> element list" where
  "candidate_detail_links_chrome found = snd (uniq_loop_chrome (concat found) ({}, []))"

definition score_anchor_for_name_chrome :: "element \<Rightarrow> string \<Rightarrow> string \<Rightarrow> nat" where
  "score_anchor_for_name_chrome a first last' =
     (let txt = normalize_name (el_text a);
          href = normalize_name (case el_href a of None \<Rightarrow> [] | Some h \<Rightarrow> h);
          score = 0;
          score = (if py_in first txt \<and> py_in last' txt then score + 2
                   else if py_in first txt \<or> py_in last' txt then score + 1
                   else score);
          score = (if py_in first href \<and> py_in last' href then score + 1 else score)
      in score)"

definition best_candidate_chrome :: "element list list \<Rightarrow> string \<Rightarrow> string \<Rightarrow> element option" where
  "best_candidate_chrome found first last' =
     (let candidates = candidate_detail_links_chrome found
      in if candidates = [] then None
         else
           (let nf = normalize_name first; nl = normalize_name last';
                scored = py_sorted_reverse snd
                           (map (\<lambda>a. (a, score_anchor_for_name_chrome a nf nl)) candidates)
            in (case scored of [] \<Rightarrow> None | x # _ \<Rightarrow> Some (fst x))))"

definition get_best_result_href :: "element list list \<Rightarrow> string \<Rightarrow> string \<Rightarrow> string option" where
  "get_best_result_href found first last' =
     (case best_candidate_chrome found first last' of
        None \<Rightarrow> None
      | Some best \<Rightarrow>
          (let href = py_strip (case el_href best of None \<Rightarrow> [] | Some h \<Rightarrow> h)
           in if href = [] then None
              else Some (if startswith href ''/'' then ''https://www.fastpeoplesearch.com'' @ href
                         else href)))"

text \<open>
  A results page used as a concrete input below: three links found by the first
  query, one of them found again by the second, and a button without \<open>href\<close> found
  by the third. The second and third link match the name equally well.
\<close>

definition link_jane :: element where
  "link_jane = \<lparr> el_href = Some ''/person/jane-doe'', el_data_href = None,
                  el_text = ''Jane Doe'', el_pyid = 140 \<rparr>"

definition link_john_a :: element where
  "link_john_a = \<lparr> el_href = Some ''/person/john-smith-1'', el_data_href = None,
                    el_text = ''John Smith'', el_pyid = 141 \<rparr>"

definition link_john_b :: element where
  "link_john_b = \<lparr> el_href = Some ''/person/john-smith-2'', el_data_href = None,
                    el_text = ''John Q Smith'', el_pyid = 142 \<rparr>"

definition button_details :: element where
  "button_details = \<lparr> el_href = None, el_data_href = None,
                       el_text = ''View Details'', el_pyid = 1423 \<rparr>"

definition sample_found :: "element list list" where
  "sample_found = [[link_jane, link_john_a, link_john_b], [link_john_a], [button_details]]"

section \<open>Lemmas on strings and the target builder\<close>

lemma re_sub_class_del: "re_sub_class cls [] s = filter (\<lambda>c. \<not> cls c) s"
  by (induction s) (auto simp: re_sub_class_def)

lemma name_kept_space: "name_kept c \<Longrightarrow> py_isspace c \<longleftrightarrow> c = CHR '' ''"
  by (auto simp: name_kept_def py_isspace_def ascii_letter_def ascii_upper_def ascii_lower_def Let_def)

lemma strip_kept:
  assumes "list_all name_kept xs"
  shows "py_strip xs = rev (dropWhile (\<lambda>c. c = CHR '' '') (rev (dropWhile (\<lambda>c. c = CHR '' '') xs)))"
proof -
  have a: "dropWhile py_isspace xs = dropWhile (\<lambda>c. c = CHR '' '') xs"
    using assms by (intro dropWhile_cong) (auto simp: list_all_iff name_kept_space)
  have "list_all name_kept (rev (dropWhile (\<lambda>c. c = CHR '' '') xs))"
    using assms by (auto simp: list_all_iff dest: set_dropWhileD)
  then have b: "dropWhile py_isspace (rev (dropWhile (\<lambda>c. c = CHR '' '') xs))
      = dropWhile (\<lambda>c. c = CHR '' '') (rev (dropWhile (\<lambda>c. c = CHR '' '') xs))"
    by (intro dropWhile_cong) (auto simp: list_all_iff name_kept_space)
  show ?thesis by (simp add: py_strip_def a b)
qed

lemma name_slug_str_or_none:
  "str_or_none x \<Longrightarrow> name_slug x = Inr (sanitized_name (name_text x))"
proof (cases x)
  case PyNone
  then show ?thesis
    by (simp add: name_slug_def or_empty_def sanitized_name_def name_text_def re_sub_class_def
        py_strip_def replace_char_def)
next
  case (PyStr s)
  have k: "list_all name_kept (filter name_kept s)" by (simp add: list_all_iff)
  have "or_empty x = PyStr s" using PyStr by (simp add: or_empty_def)
  then show ?thesis using PyStr strip_kept[OF k]
    by (simp add: name_slug_def sanitized_name_def name_text_def re_sub_class_del
        replace_char_def Let_def)
next
  case (PyOther b)
  assume "str_or_none x"
  with PyOther show ?thesis by (simp add: str_or_none_def)
qed

lemma sanitized_name_chars:
  "c \<in> set (sanitized_name s) \<Longrightarrow> ascii_letter c \<or> c = CHR ''-''"
  by (auto simp: sanitized_name_def Let_def name_kept_def dest!: set_dropWhileD)

lemma quote_plus_safe: "list_all url_safe s \<Longrightarrow> quote_plus s = s"
proof (induction s)
  case Nil
  then show ?case by (simp add: quote_plus_def)
next
  case (Cons c s)
  then have c: "url_safe c" and ih: "quote_plus s = s" by simp_all
  have ns: "c \<noteq> CHR '' ''"
    using c by (auto simp: url_safe_def ascii_letter_def ascii_upper_def ascii_lower_def py_isdigit_def)
  have "(of_char c :: nat) < 128"
    using c by (auto simp: url_safe_def ascii_letter_def ascii_upper_def ascii_lower_def py_isdigit_def Let_def)
  then have "concat (map quote_byte (utf8_encode c)) = [c]"
    using c by (simp add: utf8_encode_def quote_byte_def Let_def)
  then show ?case using ih ns by (simp add: quote_plus_def)
qed

lemma quote_plus_sanitized: "quote_plus (sanitized_name s) = sanitized_name s"
proof (rule quote_plus_safe)
  show "list_all url_safe (sanitized_name s)"
    unfolding list_all_iff
  proof
    fix c assume "c \<in> set (sanitized_name s)"
    then have "ascii_letter c \<or> c = CHR ''-''" by (rule sanitized_name_chars)
    then show "url_safe c" by (auto simp: url_safe_def)
  qed
qed

lemma path_ok_append: "path_ok a \<Longrightarrow> path_ok (a @ b) = path_ok b"
proof (induction a rule: path_ok.induct)
  case 1
  then show ?case by simp
next
  case (2 c cs)
  show ?case
  proof (cases "c = CHR ''%''")
    case True
    with 2 show ?thesis by (auto split: list.splits)
  next
    case False
    with 2 show ?thesis by simp
  qed
qed

lemma hex_digits_are_hex: "\<forall>j\<in>set [0..<16]. is_hex (''0123456789ABCDEF'' ! j)"
  by code_simp

lemma is_hex_hex_digit: "is_hex (hex_digit k)"
proof -
  have "k mod 16 \<in> set [0..<16]" by simp
  with hex_digits_are_hex show ?thesis unfolding hex_digit_def by blast
qed

lemma url_safe_path_char: "url_safe c \<Longrightarrow> c \<noteq> CHR ''%'' \<and> path_char c"
  by (auto simp: url_safe_def path_char_def ascii_letter_def ascii_upper_def ascii_lower_def
      py_isdigit_def)

lemma path_ok_quote_byte: "path_ok (quote_byte b)"
proof (cases "b < 128 \<and> url_safe (char_of b)")
  case True
  then show ?thesis using url_safe_path_char[of "char_of b"] by (simp add: quote_byte_def)
next
  case False
  then have "quote_byte b = [CHR ''%'', hex_digit (b div 16), hex_digit b]"
    unfolding quote_byte_def by (simp only: if_False)
  then show ?thesis by (simp add: is_hex_hex_digit)
qed

lemma path_ok_concat: "(\<And>x. x \<in> set xs \<Longrightarrow> path_ok x) \<Longrightarrow> path_ok (concat xs)"
  by (induction xs) (simp_all add: path_ok_append)

lemma path_ok_quote_plus: "path_ok (quote_plus s)"
  unfolding quote_plus_def
  by (rule path_ok_concat) (auto simp: path_char_def intro!: path_ok_concat path_ok_quote_byte)

lemma valid_fps_url: "path_ok p \<Longrightarrow> valid_https_url (FPS_PREFIX @ p)"
  by (simp add: valid_https_url_def FPS_PREFIX_def startswith_def host_char_def
      ascii_letter_def ascii_lower_def ascii_upper_def py_isdigit_def path_char_def)

section \<open>The target builder: claims C4, C7 and C10\<close>

lemma build_fps_url_names:
  assumes "str_or_none first" "str_or_none last'"
  shows "build_fps_url first last' address zip_code =
     Inr (FPS_PREFIX @ sanitized_name (name_text first) @ ''-'' @ sanitized_name (name_text last')
          @ ''_'' @ quote_plus (case (if falsy_where (zip_where zip_code)
                                        then to_city_state_slug (or_empty address)
                                        else zip_where zip_code)
                                  of None \<Rightarrow> [] | Some w \<Rightarrow> w))"
  using assms
  by (simp add: build_fps_url_def name_slug_str_or_none quote_plus_sanitized Let_def)

lemma path_ok_name_path:
  "path_ok (sanitized_name a @ ''-'' @ sanitized_name b @ ''_'' @ quote_plus w)"
proof -
  have "path_ok (quote_plus (sanitized_name a))" "path_ok (quote_plus (sanitized_name b))"
    by (rule path_ok_quote_plus)+
  then have a: "path_ok (sanitized_name a)" and b: "path_ok (sanitized_name b)"
    by (simp_all add: quote_plus_sanitized)
  have c: "path_ok (''-'' @ sanitized_name b @ ''_'' @ quote_plus w)"
    using path_ok_append[OF b, of "''_'' @ quote_plus w"] path_ok_quote_plus[of w]
    by (simp add: path_char_def)
  show ?thesis using path_ok_append[OF a] c by simp
qed

text \<open>
  Claim C4. For every first and last name that is a string or \<open>None\<close> (empty strings
  included), and every address and postal code argument whatsoever,
  \<^term>\<open>build_fps_url\<close> raises nothing and returns a well-formed \<open>https\<close> URL whose
  name segment is the first name and the last name, joined by a hyphen, each with
  every character other than letters, hyphens and spaces removed and the spaces that
  are left inside replaced by hyphens.
\<close>

theorem build_fps_url_valid:
  assumes "str_or_none first" "str_or_none last'"
  shows "\<exists>loc. build_fps_url first last' address zip_code =
            Inr (FPS_PREFIX @ sanitized_name (name_text first) @ ''-''
                 @ sanitized_name (name_text last') @ ''_'' @ loc)
          \<and> valid_https_url (FPS_PREFIX @ sanitized_name (name_text first) @ ''-''
                 @ sanitized_name (name_text last') @ ''_'' @ loc)"
proof -
  define w where "w = (case (if falsy_where (zip_where zip_code)
                                        then to_city_state_slug (or_empty address)
                                        else zip_where zip_code)
                                  of None \<Rightarrow> [] | Some w \<Rightarrow> w)"
  have "build_fps_url first last' address zip_code =
            Inr (FPS_PREFIX @ sanitized_name (name_text first) @ ''-''
                 @ sanitized_name (name_text last') @ ''_'' @ quote_plus w)"
    unfolding w_def by (rule build_fps_url_names[OF assms])
  moreover have "valid_https_url (FPS_PREFIX @ sanitized_name (name_text first) @ ''-''
                 @ sanitized_name (name_text last') @ ''_'' @ quote_plus w)"
    by (rule valid_fps_url) (rule path_ok_name_path)
  ultimately show ?thesis by blast
qed

theorem build_fps_url_valid_witness:
  "str_or_none (PyStr ''Mary Ann 3rd'') \<and> str_or_none PyNone \<and>
   (\<exists>loc. build_fps_url (PyStr ''Mary Ann 3rd'') PyNone PyNone (PyStr '''') =
            Inr (FPS_PREFIX @ ''Mary-Ann-rd'' @ ''-'' @ [] @ ''_'' @ loc)
          \<and> valid_https_url (FPS_PREFIX @ ''Mary-Ann-rd'' @ ''-'' @ [] @ ''_'' @ loc))"
proof -
  have n: "sanitized_name (name_text (PyStr ''Mary Ann 3rd'')) = ''Mary-Ann-rd''"
     "sanitized_name (name_text PyNone) = []"
    by code_simp+
  have h: "str_or_none (PyStr ''Mary Ann 3rd'')" "str_or_none PyNone"
    by (simp_all add: str_or_none_def)
  from build_fps_url_valid[OF h, of PyNone "PyStr ''''"] show ?thesis
    unfolding n using h by simp
qed

lemma location_segment_empty: "location_segment (xs @ ''_'') = []"
  by (simp add: location_segment_def)

text \<open>
  Claim C7. When no postal code is supplied and the address does not end in
  \<open>, City, ST\<close> (optionally followed by \<open>, ZIP\<close>), \<^term>\<open>build_fps_url\<close> returns a
  URL, raising nothing, and the URL's location segment (what follows the last
  underscore) is empty.
\<close>

theorem build_fps_url_no_location:
  assumes "str_or_none first" "str_or_none last'"
    and "no_postal_code zip_code" and "\<not> ends_with_city_state a"
  shows "\<exists>u. build_fps_url first last' (PyStr a) zip_code = Inr u \<and> location_segment u = []"
proof -
  have z: "zip_where zip_code = None"
    using assms(3) by (auto simp: no_postal_code_def zip_where_def split: pyval.splits)
  have "re_search CITY_STATE_RE (py_strip a) = None"
    using assms(4) unfolding ends_with_city_state_def by blast
  moreover have "re_search CITY_STATE_RE (py_strip []) = None"
    by code_simp
  ultimately have s: "to_city_state_slug (or_empty (PyStr a)) = None"
    by (simp add: to_city_state_slug_def or_empty_def)
  have "build_fps_url first last' (PyStr a) zip_code =
     Inr ((FPS_PREFIX @ sanitized_name (name_text first) @ ''-'' @ sanitized_name (name_text last')) @ ''_'')"
    using build_fps_url_names[OF assms(1,2), of "PyStr a" zip_code] z s
    by (simp add: falsy_where_def quote_plus_def)
  then show ?thesis using location_segment_empty by blast
qed

theorem build_fps_url_no_location_witness:
  "str_or_none (PyStr ''John'') \<and> str_or_none (PyStr ''Smith'') \<and> no_postal_code PyNone
   \<and> \<not> ends_with_city_state ''12 Main St, Springfield''
   \<and> (\<exists>u. build_fps_url (PyStr ''John'') (PyStr ''Smith'') (PyStr ''12 Main St, Springfield'') PyNone = Inr u
        \<and> location_segment u = [])"
proof -
  have h: "str_or_none (PyStr ''John'')" "str_or_none (PyStr ''Smith'')" "no_postal_code PyNone"
    by (simp_all add: str_or_none_def no_postal_code_def)
  have e: "\<not> ends_with_city_state ''12 Main St, Springfield''"
    by code_simp
  from build_fps_url_no_location[OF h e] h e show ?thesis by blast
qed

text \<open>
  Claim C10. For a postal code string that is not empty after \<open>strip\<close>, the location
  segment is the first five characters of the stripped string as \<open>quote_plus\<close> writes
  them, digits or not, whatever the address is; the city-state slug of the address is
  used exactly when the postal code is \<open>None\<close>, not a string, or blank.
\<close>

theorem build_fps_url_zip_precedence:
  assumes "str_or_none first" "str_or_none last'"
  shows "(py_strip z \<noteq> [] \<longrightarrow>
            build_fps_url first last' address (PyStr z) =
              Inr (FPS_PREFIX @ sanitized_name (name_text first) @ ''-''
                   @ sanitized_name (name_text last') @ ''_'' @ quote_plus (take 5 (py_strip z))))
       \<and> (no_postal_code zip_code \<longrightarrow>
            build_fps_url first last' address zip_code =
              Inr (FPS_PREFIX @ sanitized_name (name_text first) @ ''-''
                   @ sanitized_name (name_text last') @ ''_''
                   @ quote_plus (case to_city_state_slug (or_empty address) of
                                   None \<Rightarrow> [] | Some w \<Rightarrow> w)))"
proof (intro conjI impI)
  assume nz: "py_strip z \<noteq> []"
  then have "zip_where (PyStr z) = Some (take 5 (py_strip z))" "take 5 (py_strip z) \<noteq> []"
    by (simp_all add: zip_where_def)
  then show "build_fps_url first last' address (PyStr z) =
              Inr (FPS_PREFIX @ sanitized_name (name_text first) @ ''-''
                   @ sanitized_name (name_text last') @ ''_'' @ quote_plus (take 5 (py_strip z)))"
    using build_fps_url_names[OF assms, of address "PyStr z"] by (simp add: falsy_where_def)
next
  assume "no_postal_code zip_code"
  then have "zip_where zip_code = None"
    by (auto simp: no_postal_code_def zip_where_def split: pyval.splits)
  then show "build_fps_url first last' address zip_code =
              Inr (FPS_PREFIX @ sanitized_name (name_text first) @ ''-''
                   @ sanitized_name (name_text last') @ ''_''
                   @ quote_plus (case to_city_state_slug (or_empty address) of
                                   None \<Rightarrow> [] | Some w \<Rightarrow> w))"
    using build_fps_url_names[OF assms, of address zip_code] by (simp add: falsy_where_def)
qed

theorem build_fps_url_zip_precedence_witness:
  "build_fps_url (PyStr ''John'') (PyStr ''Smith'') (PyStr ''1 A St, Salt Lake City, ut'') (PyStr '' AB-12xyz '')
     = Inr ''https://www.fastpeoplesearch.com/name/John-Smith_AB-12''
   \<and> build_fps_url (PyStr ''John'') (PyStr ''Smith'') (PyStr ''1 A St, Salt Lake City, ut'') (PyStr ''  '')
     = Inr ''https://www.fastpeoplesearch.com/name/John-Smith_Salt-Lake-City-UT''"
proof -
  have h: "str_or_none (PyStr ''John'')" "str_or_none (PyStr ''Smith'')"
    by (simp_all add: str_or_none_def)
  have a: "py_strip '' AB-12xyz '' \<noteq> []" by code_simp
  have b: "no_postal_code (PyStr ''  '')" by code_simp
  have n: "sanitized_name (name_text (PyStr ''John'')) = ''John''"
     "sanitized_name (name_text (PyStr ''Smith'')) = ''Smith''"
     "quote_plus (take 5 (py_strip '' AB-12xyz '')) = ''AB-12''"
     "quote_plus (case to_city_state_slug (or_empty (PyStr ''1 A St, Salt Lake City, ut'')) of
                                   None \<Rightarrow> [] | Some w \<Rightarrow> w) = ''Salt-Lake-City-UT''"
    by code_simp+
  from build_fps_url_zip_precedence[OF h, of "'' AB-12xyz ''" "PyStr ''1 A St, Salt Lake City, ut''" "PyStr ''  ''"]
  show ?thesis using a b unfolding n by (simp add: FPS_PREFIX_def)
qed

section \<open>Phone normalisation: claim C8\<close>

lemma digits_of_canonical:
  assumes "is_canonical_phone s"
  shows "\<exists>d. length d = 10 \<and> list_all py_isdigit d \<and>
     s = ''('' @ take 3 d @ '') '' @ take 3 (drop 3 d) @ ''-'' @ drop 6 d \<and> filter py_isdigit s = d"
proof -
  define a b c where "a = py_slice s 1 4" and "b = py_slice s 6 9" and "c = py_slice s 10 14"
  from assms have s: "s = ''('' @ a @ '') '' @ b @ ''-'' @ c"
    and len: "length a = 3" "length b = 3" "length c = 4"
    and dig: "list_all py_isdigit (a @ b @ c)"
    unfolding is_canonical_phone_def a_def b_def c_def Let_def by blast+
  have f: "filter py_isdigit (a @ b @ c) = a @ b @ c"
    using dig by (simp add: list_all_iff)
  have nd: "\<not> py_isdigit CHR ''(''" "\<not> py_isdigit CHR '')''" "\<not> py_isdigit CHR '' ''" "\<not> py_isdigit CHR ''-''"
    by (simp_all add: py_isdigit_def)
  have "filter py_isdigit s = a @ b @ c"
    using f nd by (subst s) simp
  then show ?thesis
    using s len dig by (intro exI[of _ "a @ b @ c"]) simp
qed

text \<open>
  Claim C8. Normalising a string that is already in the canonical form
  \<open>(NNN) NNN-NNNN\<close> returns it unchanged.
\<close>

theorem normalize_phone_canonical_fixed:
  assumes "is_canonical_phone s"
  shows "normalize_phone s = s"
proof -
  from digits_of_canonical[OF assms] obtain d where d: "length d = 10" "list_all py_isdigit d"
     "s = ''('' @ take 3 d @ '') '' @ take 3 (drop 3 d) @ ''-'' @ drop 6 d" "filter py_isdigit s = d"
    by blast
  have "re_sub_class (\<lambda>c. \<not> py_isdigit c) [] s = d"
    using d(4) by (simp add: re_sub_class_del)
  then have "normalize_phone s = ''('' @ take 3 d @ '') '' @ take 3 (drop 3 d) @ ''-'' @ drop 6 d"
    using d(1) by (simp add: normalize_phone_def py_slice_def)
  with d(3) show ?thesis by simp
qed

theorem normalize_phone_canonical_fixed_witness:
  "is_canonical_phone ''(212) 555-0199'' \<and> normalize_phone ''(212) 555-0199'' = ''(212) 555-0199''"
proof -
  have c: "is_canonical_phone ''(212) 555-0199''" by code_simp
  from normalize_phone_canonical_fixed[OF c] c show ?thesis by simp
qed

section \<open>Lemmas on matching\<close>

lemma take_takeWhile_all: "k \<le> length (takeWhile P s) \<Longrightarrow> list_all P (take k s)"
  by (induction s arbitrary: k) (auto simp: take_Cons split: nat.splits if_splits)

lemma rmatch_accepts: "(m, g, t) \<in> set (rmatch r prev s) \<Longrightarrow> accepts r m"
proof (induction r arbitrary: m g t prev s)
  case (Rep cls mn mx greedy)
  then obtain k where k: "m = take k s" "mn \<le> k"
      "k \<le> (case mx of None \<Rightarrow> length (takeWhile cls s) | Some j \<Rightarrow> min j (length (takeWhile cls s)))"
    by (auto simp: Let_def split: if_splits)
  from k(3) have kl: "k \<le> length (takeWhile cls s)" by (cases mx) auto
  then have "list_all cls m" unfolding k(1) by (rule take_takeWhile_all)
  moreover have "k \<le> length s" using kl length_takeWhile_le[of cls s] by simp
  then have "length m = k" by (simp add: k(1))
  ultimately show ?case using k(2,3) by (cases mx) auto
next
  case (Cat a b)
  then show ?case by fastforce
next
  case (Opt a)
  then show ?case by auto
next
  case (Alt a b)
  then show ?case by auto
next
  case (Grp a)
  then show ?case by auto
next
  case Eps
  then show ?case by simp
next
  case Eos
  then show ?case by (auto split: if_splits)
next
  case Wb
  then show ?case by (auto split: if_splits)
qed

lemma findall_from_matches:
  "m \<in> set (findall_from r ne prev s) \<Longrightarrow> \<exists>p u g t. (m, g, t) \<in> set (rmatch r p u)"
proof (induction r ne prev s rule: findall_from.induct)
  case (1 r ne prev s)
  define cands where "cands = (if ne then filter (\<lambda>(m, g, t). m \<noteq> []) (rmatch r prev s) else rmatch r prev s)"
  have sub: "set cands \<subseteq> set (rmatch r prev s)" by (auto simp: cands_def)
  have eq: "findall_from r ne prev s =
     (case cands of
        [] \<Rightarrow> (case s of [] \<Rightarrow> [] | c # cs \<Rightarrow> findall_from r False (Some c) cs)
      | (m, g, t) # _ \<Rightarrow>
          if m = [] then [] # findall_from r True prev s
          else m # findall_from r False (Some (last m)) (drop (length m) s))"
    unfolding cands_def by (rule findall_from.simps)
  show ?case
  proof (cases cands)
    case Nil
    show ?thesis
    proof (cases s)
      case Nil2: Nil
      with Nil 1(4) show ?thesis unfolding eq by simp
    next
      case (Cons c cs)
      with Nil 1(4) have "m \<in> set (findall_from r False (Some c) cs)"
        unfolding eq by simp
      with 1(1)[OF Nil[unfolded cands_def] Cons] show ?thesis by blast
    qed
  next
    case (Cons x xs)
    obtain m0 g0 t0 where x: "x = (m0, g0, t0)" by (cases x) auto
    have inr: "(m0, g0, t0) \<in> set (rmatch r prev s)" using sub Cons x by auto
    show ?thesis
    proof (cases "m0 = []")
      case True
      with Cons x 1(4) have "m = [] \<or> m \<in> set (findall_from r True prev s)"
        unfolding eq by simp
      then show ?thesis
      proof
        assume "m = []" with inr True show ?thesis by blast
      next
        assume "m \<in> set (findall_from r True prev s)"
        with 1(2)[OF Cons[unfolded cands_def] _ _ True, of "(g0, t0)" g0 t0] x show ?thesis by auto
      qed
    next
      case False
      with Cons x 1(4) have "m = m0 \<or> m \<in> set (findall_from r False (Some (last m0)) (drop (length m0) s))"
        unfolding eq by simp
      then show ?thesis
      proof
        assume "m = m0" with inr show ?thesis by blast
      next
        assume "m \<in> set (findall_from r False (Some (last m0)) (drop (length m0) s))"
        with 1(3)[OF Cons[unfolded cands_def] _ _ False, of "(g0, t0)" g0 t0] x show ?thesis by auto
      qed
    qed
  qed
qed

lemma re_findall_accepts: "m \<in> set (re_findall r s) \<Longrightarrow> accepts r m"
  unfolding re_findall_def by (blast dest: findall_from_matches rmatch_accepts)

section \<open>Lemmas on phone numbers and deduplication\<close>

lemma accepts_lit: "accepts (lit w) m \<longleftrightarrow> m = w"
proof (induction w arbitrary: m)
  case Nil
  then show ?case by simp
next
  case (Cons c w)
  have "accepts (Chr (\<lambda>x. x = c)) m1 \<longleftrightarrow> m1 = [c]" for m1
    by (cases m1) (auto simp: Chr_def)
  then show ?case using Cons by auto
qed

lemma sep_no_digit: "list_all phone_sep m \<Longrightarrow> filter py_isdigit m = []"
  by (induction m) (auto simp: phone_sep_def py_isdigit_def py_isspace_def Let_def)

lemma paren_no_digit:
  "list_all (\<lambda>c. c = CHR ''('') m \<Longrightarrow> filter py_isdigit m = []"
  "list_all (\<lambda>c. c = CHR '')'') m \<Longrightarrow> filter py_isdigit m = []"
  by (induction m) (auto simp: py_isdigit_def)

lemma all_digit_filter: "list_all py_isdigit m \<Longrightarrow> filter py_isdigit m = m"
  by (simp add: list_all_iff)

lemma accepts_plus_one:
  "accepts (Cat (lit ''+1'') (Rep phone_sep 0 (Some 1) True)) p \<Longrightarrow> filter py_isdigit p = ''1''"
  by (auto simp: accepts_lit sep_no_digit py_isdigit_def simp del: lit.simps)

lemma accepts_area:
  "accepts (Cat (Rep (\<lambda>c. c = CHR ''('') 0 (Some 1) True)
         (Cat (Rep py_isdigit 3 (Some 3) True)
         (Cat (Rep (\<lambda>c. c = CHR '')'') 0 (Some 1) True)
              (Rep phone_sep 0 (Some 1) True)))) m
   \<Longrightarrow> length (filter py_isdigit m) = 3"
  by (auto simp: sep_no_digit paren_no_digit all_digit_filter)

lemma accepts_local:
  "accepts (Cat (Rep py_isdigit 3 (Some 3) True)
    (Cat (Rep phone_sep 0 (Some 1) True)
         (Rep py_isdigit 4 (Some 4) True))) m
   \<Longrightarrow> length (filter py_isdigit m) = 7"
  by (auto simp: sep_no_digit all_digit_filter)

lemma accepts_PHONE_RE:
  assumes "accepts PHONE_RE m"
  shows "length (filter py_isdigit m) = 10
       \<or> (length (filter py_isdigit m) = 11 \<and> startswith (filter py_isdigit m) ''1'')"
proof -
  from assms obtain p a l where m: "m = p @ a @ l"
    and p: "p = [] \<or> accepts (Cat (lit ''+1'') (Rep phone_sep 0 (Some 1) True)) p"
    and a: "accepts (Cat (Rep (\<lambda>c. c = CHR ''('') 0 (Some 1) True)
         (Cat (Rep py_isdigit 3 (Some 3) True)
         (Cat (Rep (\<lambda>c. c = CHR '')'') 0 (Some 1) True)
              (Rep phone_sep 0 (Some 1) True)))) a"
    and l: "accepts (Cat (Rep py_isdigit 3 (Some 3) True)
    (Cat (Rep phone_sep 0 (Some 1) True)
         (Rep py_isdigit 4 (Some 4) True))) l"
    unfolding PHONE_RE_def accepts.simps(2)[of "Opt _"] accepts.simps(2)[of "Cat (Rep _ _ _ _) _" "Cat _ _"]
      accepts.simps(3)
    by blast
  have f: "filter py_isdigit m = filter py_isdigit p @ filter py_isdigit a @ filter py_isdigit l"
    by (simp add: m)
  from p show ?thesis
  proof
    assume "p = []"
    with f accepts_area[OF a] accepts_local[OF l] show ?thesis by simp
  next
    assume "accepts (Cat (lit ''+1'') (Rep phone_sep 0 (Some 1) True)) p"
    then have "filter py_isdigit p = ''1''" by (rule accepts_plus_one)
    with f accepts_area[OF a] accepts_local[OF l] show ?thesis by (simp add: startswith_def)
  qed
qed

lemma canonical_of_ten:
  assumes "length d = 10" "list_all py_isdigit d"
  shows "is_canonical_phone (''('' @ py_slice d 0 3 @ '') '' @ py_slice d 3 6 @ ''-'' @ py_slice d 6 10)"
  using assms by (simp add: is_canonical_phone_def py_slice_def Let_def list_all_iff)
     (auto dest: in_set_takeD in_set_dropD)

lemma normalize_phone_of_match:
  assumes "accepts PHONE_RE m"
  shows "is_canonical_phone (normalize_phone m)"
proof -
  define d where "d = filter py_isdigit m"
  have dd: "list_all py_isdigit d" by (simp add: d_def list_all_iff)
  have rs: "re_sub_class (\<lambda>c. \<not> py_isdigit c) [] m = d"
    by (simp add: re_sub_class_del d_def)
  from accepts_PHONE_RE[OF assms] have "length d = 10 \<or> (length d = 11 \<and> startswith d ''1'')"
    by (simp add: d_def)
  then show ?thesis
  proof
    assume l: "length d = 10"
    then have "normalize_phone m = ''('' @ py_slice d 0 3 @ '') '' @ py_slice d 3 6 @ ''-'' @ py_slice d 6 10"
      by (simp add: normalize_phone_def rs)
    then show ?thesis using canonical_of_ten[OF l dd] by simp
  next
    assume l: "length d = 11 \<and> startswith d ''1''"
    define e where "e = drop 1 d"
    have le: "length e = 10" and de: "list_all py_isdigit e"
      using l dd by (auto simp: e_def list_all_iff dest: in_set_dropD)
    have "normalize_phone m = ''('' @ py_slice e 0 3 @ '') '' @ py_slice e 3 6 @ ''-'' @ py_slice e 6 10"
      using l le by (simp add: normalize_phone_def rs e_def Let_def)
    then show ?thesis using canonical_of_ten[OF le de] by simp
  qed
qed

lemma canonical_explicit:
  assumes "is_canonical_phone p"
  shows "\<exists>a b c e f g h i j k. p = [CHR ''('', a, b, c, CHR '')'', CHR '' '', e, f, g, CHR ''-'', h, i, j, k]
     \<and> py_isdigit k"
proof -
  define x y z where "x = py_slice p 1 4" and "y = py_slice p 6 9" and "z = py_slice p 10 14"
  from assms have p: "p = ''('' @ x @ '') '' @ y @ ''-'' @ z"
    and len: "length x = 3" "length y = 3" "length z = 4"
    and dig: "list_all py_isdigit (x @ y @ z)"
    unfolding is_canonical_phone_def x_def y_def z_def Let_def by blast+
  from len obtain a b c e f g h i j k where "x = [a, b, c]" "y = [e, f, g]" "z = [h, i, j, k]"
    by (auto simp: length_Suc_conv numeral_3_eq_3 numeral_eq_Suc)
  with p dig show ?thesis by auto
qed

lemma py_strip_canonical: "is_canonical_phone p \<Longrightarrow> py_strip p = p"
proof -
  assume "is_canonical_phone p"
  from canonical_explicit[OF this] obtain a b c e f g h i j k where
    p: "p = [CHR ''('', a, b, c, CHR '')'', CHR '' '', e, f, g, CHR ''-'', h, i, j, k]" and k: "py_isdigit k"
    by blast
  have "\<not> py_isspace k" using k by (auto simp: py_isdigit_def py_isspace_def Let_def)
  moreover have "\<not> py_isspace CHR ''(''" by (simp add: py_isspace_def)
  ultimately show ?thesis unfolding p by (simp add: py_strip_def)
qed

lemma dedupe_loop_inv:
  assumes "dedupe_loop items (seen, out) = (seen', out')" "seen = set out" "distinct out"
  shows "seen' = set out' \<and> distinct out'
       \<and> set out' \<subseteq> set out \<union> py_strip ` set items"
  using assms
proof (induction items arbitrary: seen out)
  case Nil
  then show ?case by auto
next
  case (Cons it items)
  show ?case
  proof (cases "py_strip it \<noteq> [] \<and> py_strip it \<notin> seen")
    case True
    with Cons.prems have "dedupe_loop items (insert (py_strip it) seen, out @ [py_strip it]) = (seen', out')"
      by (simp add: Let_def)
    from Cons.IH[OF this] True Cons.prems(2,3) show ?thesis by auto
  next
    case False
    with Cons.prems have "dedupe_loop items (seen, out) = (seen', out')"
      by (auto simp: Let_def)
    from Cons.IH[OF this] Cons.prems(2,3) show ?thesis by auto
  qed
qed

lemma distinct_dedupe: "distinct (dedupe_preserve_order items)"
  using dedupe_loop_inv[of items "{}" "[]" "fst (dedupe_loop items ({}, []))" "snd (dedupe_loop items ({}, []))"]
  by (simp add: dedupe_preserve_order_def)

lemma set_dedupe: "set (dedupe_preserve_order items) \<subseteq> py_strip ` set items"
  using dedupe_loop_inv[of items "{}" "[]" "fst (dedupe_loop items ({}, []))" "snd (dedupe_loop items ({}, []))"]
  by (simp add: dedupe_preserve_order_def)

lemma extract_phones_canonical:
  assumes "p \<in> set (extract_phones soup body_text)"
  shows "is_canonical_phone p"
proof -
  define cands where "cands = concat (map (\<lambda>a. re_findall PHONE_RE (link_text_or_href a))
                               (soup_select PHONE_LINKS soup))"
  define cands2 where "cands2 = (if cands = [] then cands @ re_findall PHONE_RE body_text else cands)"
  have acc: "accepts PHONE_RE m" if "m \<in> set cands2" for m
    using that by (auto simp: cands2_def cands_def split: if_splits dest: re_findall_accepts)
  have "extract_phones soup body_text = take 5 (dedupe_preserve_order (map normalize_phone cands2))"
    by (simp add: extract_phones_def Let_def cands2_def cands_def)
  with assms have "p \<in> set (dedupe_preserve_order (map normalize_phone cands2))"
    by (auto dest: in_set_takeD)
  with set_dedupe obtain m where m: "m \<in> set cands2" "p = py_strip (normalize_phone m)"
    by fastforce
  from acc[OF m(1)] have "is_canonical_phone (normalize_phone m)" by (rule normalize_phone_of_match)
  then show ?thesis using m(2) by (simp add: py_strip_canonical)
qed

section \<open>Detail pages: claims C1, C2 and C6\<close>

text \<open>
  Claim C1. A page that \<^term>\<open>is_cloudflare_challenge\<close> classifies as a challenge is
  never accepted: \<^term>\<open>is_detail_page_html\<close> of \<open>fps_scraper_edge.py\<close> returns
  false for it, and \<open>scrape_current_page\<close> of \<open>fps_scraper_chrome.py\<close> returns no
  data for it, whatever signals the page carries.
\<close>

theorem challenge_page_never_accepted:
  assumes "is_cloudflare_challenge html"
  shows "\<not> is_detail_page_html parse html
       \<and> scrape_current_page_chrome parse html html2 current_url
           = (None, Some ''Cloudflare challenge still visible'')"
  using assms by (simp add: is_detail_page_html_def scrape_current_page_chrome_def)

theorem challenge_page_never_accepted_witness:
  "is_cloudflare_challenge challenge_html
   \<and> \<not> is_detail_page_html (\<lambda>h. challenge_soup) challenge_html
   \<and> scrape_current_page_chrome (\<lambda>h. challenge_soup) challenge_html challenge_html []
       = (None, Some ''Cloudflare challenge still visible'')"
proof -
  have c: "is_cloudflare_challenge challenge_html" by code_simp
  from challenge_page_never_accepted[OF c] c show ?thesis by blast
qed

text \<open>
  The function \<open>is_detail_page_html\<close> of \<open>fps_scraper_chrome.py\<close> alone does accept a
  challenge page with two signals.
\<close>

theorem chrome_is_detail_page_html_accepts_challenge:
  "is_cloudflare_challenge challenge_html
   \<and> is_detail_page_html_chrome (\<lambda>h. challenge_soup) challenge_html"
  by code_simp

lemma parse_detail_limits:
  "length (phones (parse_detail_page_html_to_data parse html current_url)) \<le> 5
   \<and> distinct (phones (parse_detail_page_html_to_data parse html current_url))
   \<and> distinct (emails (parse_detail_page_html_to_data parse html current_url))
   \<and> distinct (relatives (parse_detail_page_html_to_data parse html current_url))"
  by (simp add: parse_detail_page_html_to_data_def empty_data_def Let_def extract_phones_def
      extract_emails_def extract_names_by_heading_def distinct_dedupe)

lemma parse_detail_chrome_phones:
  "length (phones (parse_detail_page_html_to_data_chrome parse html current_url)) \<le> 5"
  by (simp add: parse_detail_page_html_to_data_chrome_def empty_data_def Let_def)

text \<open>
  Claim C2, on \<open>fps_scraper_chrome.py\<close>: a page that lists one phone number in two
  links gives a result whose phones list holds that number twice.
\<close>

theorem chrome_parse_repeats_phone:
  "phones (parse_detail_page_html_to_data_chrome (\<lambda>h. repeated_phone_soup) repeated_phone_html [])
     = [''(212) 555-0199'', ''(212) 555-0199'']"
  by code_simp

lemma phones_parse:
  "html \<noteq> [] \<Longrightarrow> phones (parse_detail_page_html_to_data parse html current_url)
     = extract_phones (parse html) (get_text_strip '' '' (parse html))"
  by (simp add: parse_detail_page_html_to_data_def empty_data_def Let_def)

lemma edge_parse_dedupes_phone:
  "phones (parse_detail_page_html_to_data (\<lambda>h. repeated_phone_soup) repeated_phone_html [])
     = [''(212) 555-0199'']"
proof -
  have "repeated_phone_html \<noteq> []" by (simp add: repeated_phone_html_def)
  moreover have "extract_phones repeated_phone_soup (get_text_strip '' '' repeated_phone_soup)
      = [''(212) 555-0199'']"
    by code_simp
  ultimately show ?thesis by (simp add: phones_parse)
qed

lemma canonical_form_slices:
  "canonical_form d = ''('' @ py_slice d 0 3 @ '') '' @ py_slice d 3 6 @ ''-'' @ py_slice d 6 10"
  by (simp add: canonical_form_def py_slice_def)

text \<open>
  Claim C6. \<^term>\<open>normalize_phone\<close> looks at the digits of its argument only: ten
  digits are rendered \<open>(NNN) NNN-NNNN\<close>, and so are the last ten of eleven digits that
  start with 1; every phone number of an extraction result has that form, so a text
  that does not reduce to ten digits is not in the result.
\<close>

theorem normalize_phone_contract:
  "(length (filter py_isdigit raw) = 10 \<longrightarrow>
      normalize_phone raw = canonical_form (filter py_isdigit raw))
   \<and> (length (filter py_isdigit raw) = 11 \<and> startswith (filter py_isdigit raw) ''1'' \<longrightarrow>
      normalize_phone raw = canonical_form (drop 1 (filter py_isdigit raw)))
   \<and> (length d = 10 \<and> list_all py_isdigit d \<longrightarrow> is_canonical_phone (canonical_form d))
   \<and> (\<forall>p \<in> set (phones (parse_detail_page_html_to_data parse html current_url)).
        is_canonical_phone p)"
proof (intro conjI impI ballI)
  assume "length (filter py_isdigit raw) = 10"
  then show "normalize_phone raw = canonical_form (filter py_isdigit raw)"
    by (simp add: normalize_phone_def re_sub_class_del canonical_form_slices Let_def)
next
  assume a: "length (filter py_isdigit raw) = 11 \<and> startswith (filter py_isdigit raw) ''1''"
  then show "normalize_phone raw = canonical_form (drop 1 (filter py_isdigit raw))"
    by (simp add: normalize_phone_def re_sub_class_del canonical_form_slices Let_def)
next
  assume "length d = 10 \<and> list_all py_isdigit d"
  then show "is_canonical_phone (canonical_form d)"
    using canonical_of_ten[of d] by (simp add: canonical_form_slices)
next
  fix p assume "p \<in> set (phones (parse_detail_page_html_to_data parse html current_url))"
  then have "p \<in> set (extract_phones (parse html) (get_text_strip '' '' (parse html)))"
    by (auto simp: parse_detail_page_html_to_data_def empty_data_def Let_def split: if_splits)
  then show "is_canonical_phone p" by (rule extract_phones_canonical)
qed

theorem normalize_phone_contract_witness:
  "normalize_phone ''212.555.0199 '' = ''(212) 555-0199''
   \<and> normalize_phone ''+1 (212) 555-0199'' = ''(212) 555-0199''
   \<and> is_canonical_phone (canonical_form ''2125550199'')
   \<and> phones (parse_detail_page_html_to_data (\<lambda>h. repeated_phone_soup) repeated_phone_html []) = [''(212) 555-0199'']
   \<and> is_canonical_phone ''(212) 555-0199''"
proof -
  have e: "length (filter py_isdigit ''212.555.0199 '') = 10"
    "canonical_form (filter py_isdigit ''212.555.0199 '') = ''(212) 555-0199''"
    "length (filter py_isdigit ''+1 (212) 555-0199'') = 11 \<and> startswith (filter py_isdigit ''+1 (212) 555-0199'') ''1''"
    "canonical_form (drop 1 (filter py_isdigit ''+1 (212) 555-0199'')) = ''(212) 555-0199''"
    "length ''2125550199'' = 10 \<and> list_all py_isdigit ''2125550199''"
    by code_simp+
  note e = e edge_parse_dedupes_phone
  from normalize_phone_contract[of "''212.555.0199 ''" "''2125550199''" "\<lambda>h. repeated_phone_soup" repeated_phone_html "[]"]
    normalize_phone_contract[of "''+1 (212) 555-0199''" "''2125550199''" "\<lambda>h. repeated_phone_soup" repeated_phone_html "[]"]
  show ?thesis using e by simp
qed

section \<open>Lemmas on sorting\<close>

lemma last_filter_last: "xs \<noteq> [] \<Longrightarrow> P (last xs) \<Longrightarrow> last (filter P xs) = last xs"
  by (induction xs) (auto split: if_splits simp: filter_empty_conv)

lemma sorted_last_max:
  "sorted (map f zs) \<Longrightarrow> z \<in> set zs \<Longrightarrow> f z \<le> f (last zs)"
  by (induction zs) (auto split: if_splits)

lemma first_index:
  "\<exists>x\<in>set xs. P x \<Longrightarrow>
     length (takeWhile (\<lambda>y. \<not> P y) xs) < length xs
     \<and> hd (filter P xs) = xs ! length (takeWhile (\<lambda>y. \<not> P y) xs)"
  by (induction xs) auto

lemma before_first_index:
  "j < length (takeWhile Q xs) \<Longrightarrow> Q (xs ! j)"
  by (induction xs arbitrary: j) (auto simp: nth_Cons' split: if_splits)



lemma hd_sorted_reverse:
  assumes "xs \<noteq> []"
  shows "\<exists>i<length xs. hd (py_sorted_reverse f xs) = xs ! i
           \<and> (\<forall>j<length xs. f (xs ! j) \<le> f (xs ! i))
           \<and> (\<forall>j<i. f (xs ! j) < f (xs ! i))"
proof -
  define zs where "zs = sort_key f (rev xs)"
  define b where "b = last zs"
  have set_zs: "set zs = set xs" unfolding zs_def by simp
  have ne: "zs \<noteq> []"
  proof
    assume "zs = []"
    with set_zs have "set xs = {}" by simp
    with assms show False by simp
  qed
  have srt: "sorted (map f zs)" unfolding zs_def by (rule sorted_sort_key)
  have hd: "hd (py_sorted_reverse f xs) = b"
    unfolding py_sorted_reverse_def zs_def[symmetric] b_def using ne by (simp add: hd_rev)
  have mx: "f x \<le> f b" if "x \<in> set xs" for x
  proof -
    from that set_zs have "x \<in> set zs" by simp
    with srt show ?thesis unfolding b_def by (rule sorted_last_max)
  qed
  define P where "P = (\<lambda>y. f y = f b)"
  have Pb: "P (last zs)" unfolding P_def b_def by (rule refl)
  have l1: "last (filter P zs) = b"
    unfolding b_def using ne Pb by (rule last_filter_last)
  have "filter P zs = filter P (rev xs)"
    unfolding zs_def P_def by (rule sort_key_stable)
  then have l2: "filter P zs = rev (filter P xs)" by (simp only: rev_filter)
  have "last zs \<in> set zs" using ne by (rule last_in_set)
  with set_zs have "last zs \<in> set xs" by simp
  with Pb have ex: "\<exists>x\<in>set xs. P x" by blast
  then have fne: "filter P xs \<noteq> []" by (simp add: filter_empty_conv)
  from l1 l2 have "last (rev (filter P xs)) = b" by simp
  with fne have hb: "hd (filter P xs) = b" by (simp add: last_rev)
  define i where "i = length (takeWhile (\<lambda>y. \<not> P y) xs)"
  from first_index[OF ex] have il: "i < length xs" and b: "xs ! i = b"
    using hb by (simp_all add: i_def)
  have before: "\<not> P (xs ! j)" if "j < i" for j
    using that before_first_index[of j "\<lambda>y. \<not> P y" xs] by (simp add: i_def)
  show ?thesis
  proof (intro exI[of _ i] conjI allI impI)
    show "i < length xs" by (rule il)
    show "hd (py_sorted_reverse f xs) = xs ! i" using hd b by simp
    show "f (xs ! j) \<le> f (xs ! i)" if "j < length xs" for j
      using mx[of "xs ! j"] that b by simp
    show "f (xs ! j) < f (xs ! i)" if "j < i" for j
    proof -
      have "j < length xs" using that il by simp
      then have "f (xs ! j) \<le> f b" using mx[of "xs ! j"] by simp
      moreover have "f (xs ! j) \<noteq> f b" using before[OF that] by (simp add: P_def)
      ultimately show ?thesis using b by simp
    qed
  qed
qed

end
